theory Spec2Isabelle
  imports Complex_Main
begin

section \<open>Floating-point values\<close>

text \<open>
  The registration code computes with C++ \<^verbatim>\<open>float\<close> and \<^verbatim>\<open>double\<close>. A value of either
  type is modelled as a \<open>cfloat\<close>: a finite value carried as a real number, one of the two
  infinities, or NaN. The operations below follow IEEE 754 on the special values and give
  the exact result on finite ones; the sign of zero is not modelled (a zero is a positive
  zero). Where the branches of the code depend on the rounding of a result, in the sweep
  orientation and in the unwrapping of the horizontal angle, the rounding to \<^verbatim>\<open>float\<close>
  or \<^verbatim>\<open>double\<close> is written out with \<open>toFloat\<close> and \<open>toDouble\<close>; the vertical angle,
  the relative time and the times of the IMU states keep the exact results.
\<close>

datatype cfloat = Fin real | PInf | NInf | NaN

fun pcl_isfinite :: "cfloat \<Rightarrow> bool" where
  "pcl_isfinite (Fin r) = True"
| "pcl_isfinite PInf = False"
| "pcl_isfinite NInf = False"
| "pcl_isfinite NaN = False"

fun fneg :: "cfloat \<Rightarrow> cfloat" where
  "fneg (Fin a) = Fin (- a)"
| "fneg PInf = NInf"
| "fneg NInf = PInf"
| "fneg NaN = NaN"

fun fadd :: "cfloat \<Rightarrow> cfloat \<Rightarrow> cfloat" where
  "fadd NaN b = NaN"
| "fadd a NaN = NaN"
| "fadd (Fin a) (Fin b) = Fin (a + b)"
| "fadd PInf NInf = NaN"
| "fadd NInf PInf = NaN"
| "fadd PInf b = PInf"
| "fadd NInf b = NInf"
| "fadd (Fin a) b = b"

definition fsub :: "cfloat \<Rightarrow> cfloat \<Rightarrow> cfloat" where
  "fsub a b = fadd a (fneg b)"

text \<open>The sign of an infinity times a non-zero finite value.\<close>

definition signedInf :: "bool \<Rightarrow> cfloat" where
  "signedInf positive = (if positive then PInf else NInf)"

fun fmul :: "cfloat \<Rightarrow> cfloat \<Rightarrow> cfloat" where
  "fmul NaN b = NaN"
| "fmul a NaN = NaN"
| "fmul (Fin a) (Fin b) = Fin (a * b)"
| "fmul PInf PInf = PInf"
| "fmul NInf NInf = PInf"
| "fmul PInf NInf = NInf"
| "fmul NInf PInf = NInf"
| "fmul PInf (Fin b) = (if b = 0 then NaN else signedInf (0 < b))"
| "fmul NInf (Fin b) = (if b = 0 then NaN else signedInf (b < 0))"
| "fmul (Fin a) PInf = (if a = 0 then NaN else signedInf (0 < a))"
| "fmul (Fin a) NInf = (if a = 0 then NaN else signedInf (a < 0))"

fun fdiv :: "cfloat \<Rightarrow> cfloat \<Rightarrow> cfloat" where
  "fdiv NaN b = NaN"
| "fdiv a NaN = NaN"
| "fdiv (Fin a) (Fin b) =
     (if b \<noteq> 0 then Fin (a / b)
      else if 0 < a then PInf else if a < 0 then NInf else NaN)"
| "fdiv (Fin a) PInf = Fin 0"
| "fdiv (Fin a) NInf = Fin 0"
| "fdiv PInf (Fin b) = signedInf (0 \<le> b)"
| "fdiv NInf (Fin b) = signedInf (b < 0)"
| "fdiv PInf b = NaN"
| "fdiv NInf b = NaN"

text \<open>Comparisons involving NaN are false.\<close>

fun flt :: "cfloat \<Rightarrow> cfloat \<Rightarrow> bool" where
  "flt NaN b = False"
| "flt a NaN = False"
| "flt (Fin a) (Fin b) = (a < b)"
| "flt a NInf = False"
| "flt PInf b = False"
| "flt NInf b = True"
| "flt (Fin a) PInf = True"

definition fgt :: "cfloat \<Rightarrow> cfloat \<Rightarrow> bool" where
  "fgt a b = flt b a"

fun fsqrt :: "cfloat \<Rightarrow> cfloat" where
  "fsqrt (Fin a) = (if a < 0 then NaN else Fin (sqrt a))"
| "fsqrt PInf = PInf"
| "fsqrt NInf = NaN"
| "fsqrt NaN = NaN"

section \<open>Rounding\<close>

text \<open>
  Rounding to the nearest value with a significand of \<open>p\<close> bits, a tie going to the even
  significand, on a grid that is never finer than \<open>2 ^ emin\<close>, the spacing of the subnormal
  values. \<open>binade x\<close> is the exponent \<open>k\<close> with \<open>2 ^ k \<le> \<bar>x\<bar> < 2 ^ (k + 1)\<close>.
\<close>

definition roundEven :: "real \<Rightarrow> int" where
  "roundEven x =
     (let n = \<lfloor>x\<rfloor>; d = x - of_int n
      in if d < 1 / 2 then n else if 1 / 2 < d then n + 1 else if even n then n else n + 1)"

definition pow2 :: "int \<Rightarrow> real" where
  "pow2 k = (if 0 \<le> k then 2 ^ nat k else 1 / 2 ^ nat (- k))"

definition binade :: "real \<Rightarrow> int" where
  "binade x = \<lfloor>log 2 \<bar>x\<bar>\<rfloor>"

definition roundTo :: "nat \<Rightarrow> int \<Rightarrow> real \<Rightarrow> real" where
  "roundTo p emin x =
     (if x = 0 then 0
      else let u = pow2 (max (binade x - int p + 1) emin)
           in of_int (roundEven (x / u)) * u)"

text \<open>
  The value of an expression of type \<^verbatim>\<open>float\<close> (binary32: 24 bits, subnormal spacing
  \<open>2 ^ -149\<close>, an infinity from \<open>2 ^ 128\<close> on) and of type \<^verbatim>\<open>double\<close> (binary64: 53
  bits, subnormal spacing \<open>2 ^ -1074\<close>, an infinity from \<open>2 ^ 1024\<close> on).
\<close>

fun toFloat :: "cfloat \<Rightarrow> cfloat" where
  "toFloat (Fin x) =
     (let y = roundTo 24 (- 149) x in if 2 ^ 128 \<le> \<bar>y\<bar> then signedInf (0 < y) else Fin y)"
| "toFloat PInf = PInf"
| "toFloat NInf = NInf"
| "toFloat NaN = NaN"

fun toDouble :: "cfloat \<Rightarrow> cfloat" where
  "toDouble (Fin x) =
     (let y = roundTo 53 (- 1074) x in if 2 ^ 1024 \<le> \<bar>y\<bar> then signedInf (0 < y) else Fin y)"
| "toDouble PInf = PInf"
| "toDouble NInf = NInf"
| "toDouble NaN = NaN"

declare toFloat.simps(1) [simp del] toDouble.simps(1) [simp del]

text \<open>
  \<^verbatim>\<open>M_PI\<close> is the \<^verbatim>\<open>double\<close> nearest to \<open>\<pi>\<close>, \<^verbatim>\<open>0x1.921fb54442d18p+1\<close>. The
  expressions in which the code uses it: \<^verbatim>\<open>2 * float(M_PI)\<close> is computed in
  \<^verbatim>\<open>float\<close>, the others in \<^verbatim>\<open>double\<close>.
\<close>

definition M_PI :: real where
  "M_PI = 884279719003555 / 281474976710656"

definition twoPiFloat :: cfloat where
  "twoPiFloat = toFloat (fmul (Fin 2) (toFloat (Fin M_PI)))"

definition twoPi :: cfloat where
  "twoPi = toDouble (fmul (Fin 2) (Fin M_PI))"

definition threePi :: cfloat where
  "threePi = toDouble (fmul (Fin 3) (Fin M_PI))"

definition halfPi :: cfloat where
  "halfPi = toDouble (fdiv (Fin M_PI) (Fin 2))"

definition threeHalfPi :: cfloat where
  "threeHalfPi = toDouble (fdiv (toDouble (fmul (Fin M_PI) (Fin 3))) (Fin 2))"

section \<open>Arc tangents\<close>

fun fatan :: "cfloat \<Rightarrow> cfloat" where
  "fatan (Fin a) = Fin (arctan a)"
| "fatan PInf = Fin (pi / 2)"
| "fatan NInf = Fin (- (pi / 2))"
| "fatan NaN = NaN"

text \<open>The angle of the point \<open>(x, y)\<close>, in the quadrant of the point.\<close>

definition atan2 :: "real \<Rightarrow> real \<Rightarrow> real" where
  "atan2 y x =
     (if 0 < x then arctan (y / x)
      else if x < 0 then (if 0 \<le> y then arctan (y / x) + pi else arctan (y / x) - pi)
      else if 0 < y then pi / 2
      else if y < 0 then - (pi / 2)
      else 0)"

text \<open>
  \<^verbatim>\<open>std::atan2(y, x)\<close> on two \<^verbatim>\<open>float\<close> arguments: the result is a \<^verbatim>\<open>float\<close>,
  taken to be the correctly rounded angle.
\<close>

fun fatan2 :: "cfloat \<Rightarrow> cfloat \<Rightarrow> cfloat" where
  "fatan2 NaN x = NaN"
| "fatan2 y NaN = NaN"
| "fatan2 (Fin y) (Fin x) = toFloat (Fin (atan2 y x))"
| "fatan2 (Fin y) PInf = Fin 0"
| "fatan2 (Fin y) NInf = toFloat (Fin (if 0 \<le> y then pi else - pi))"
| "fatan2 PInf (Fin x) = toFloat (Fin (pi / 2))"
| "fatan2 NInf (Fin x) = toFloat (Fin (- (pi / 2)))"
| "fatan2 PInf PInf = toFloat (Fin (pi / 4))"
| "fatan2 NInf PInf = toFloat (Fin (- (pi / 4)))"
| "fatan2 PInf NInf = toFloat (Fin (3 * pi / 4))"
| "fatan2 NInf NInf = toFloat (Fin (- (3 * pi / 4)))"

text \<open>
  Conversion \<^verbatim>\<open>int(f)\<close> truncates towards zero; on a value that is not finite it is
  undefined behaviour, which is \<open>None\<close> here.
\<close>

definition cTruncate :: "real \<Rightarrow> int" where
  "cTruncate r = (if 0 \<le> r then \<lfloor>r\<rfloor> else \<lceil>r\<rceil>)"

fun toInt :: "cfloat \<Rightarrow> int option" where
  "toInt (Fin r) = Some (cTruncate r)"
| "toInt PInf = None"
| "toInt NInf = None"
| "toInt NaN = None"


section \<open>Data model\<close>

text \<open>\<^verbatim>\<open>pcl::PointXYZ\<close>, a raw point of the input sweep in the sensor's axes.\<close>

record PointXYZ =
  in_x :: cfloat
  in_y :: cfloat
  in_z :: cfloat

text \<open>\<^verbatim>\<open>pcl::PointXYZI\<close>; \<open>intensity\<close> holds the packed scalar \<open>scanID + relTime\<close>.\<close>

record PointXYZI =
  pt_x :: cfloat
  pt_y :: cfloat
  pt_z :: cfloat
  intensity :: cfloat

text \<open>
  An entry of the orientation history. Only its time stamp (seconds) is read here; the
  rest of the state belongs to the IMU code and stays abstract.
\<close>

record 'a IMUState =
  stamp :: real
  pose :: 'a

text \<open>
  The members of the registration object that \<^verbatim>\<open>process\<close> and
  \<^verbatim>\<open>processCloudMessage\<close> read or write. \<^verbatim>\<open>_nScans\<close> is a \<^verbatim>\<open>uint16_t\<close> that
  the code only uses after promotion to \<^verbatim>\<open>int\<close>; sizes and indices of type
  \<^verbatim>\<open>size_t\<close> are natural numbers below \<open>2 ^ 64\<close>, with the one subtraction that can
  wrap written out in \<open>sizeMinus1\<close>.
\<close>

record 'a registration =
  systemDelay :: int
  scanPeriod :: cfloat
  nScans :: nat
  imuHistory :: "'a IMUState list"
  imuStartIdx :: nat
  imuCur :: "'a IMUState"
  laserCloud :: "PointXYZI list"
  scanStartIndices :: "nat list"
  scanEndIndices :: "nat list"

text \<open>
  Operations of the base class and of the IMU code that \<^verbatim>\<open>process\<close> calls and that
  are defined in other source files: \<^verbatim>\<open>reset(scanTime)\<close>,
  \<^verbatim>\<open>IMUState::interpolate(start, end, ratio, result)\<close> and the rotation that
  \<^verbatim>\<open>transformToStartIMU\<close> applies to a point's coordinates for the current IMU
  state and relative time. They are parameters of the model.
\<close>

record 'a collaborators =
  reset :: "real \<Rightarrow> 'a registration \<Rightarrow> 'a registration"
  interpolate :: "'a IMUState \<Rightarrow> 'a IMUState \<Rightarrow> cfloat \<Rightarrow> 'a IMUState"
  toStartFrame :: "'a IMUState \<Rightarrow> cfloat \<Rightarrow> cfloat \<times> cfloat \<times> cfloat \<Rightarrow> cfloat \<times> cfloat \<times> cfloat"

text \<open>
  Undefined behaviour of the C++ code is an error value of the model: an access outside a
  container, the conversion of a non-finite value to \<^verbatim>\<open>int\<close>, and the overflow of the
  \<^verbatim>\<open>int\<close> loop counter.
\<close>

datatype error = OutOfBounds | UndefinedConversion | SignedOverflow

text \<open>The incoming message: the points \<^verbatim>\<open>pcl::fromROSMsg\<close> extracts, and the header stamp.\<close>

record PointCloud2 =
  msgPoints :: "PointXYZ list"
  msgStamp :: real

section \<open>Containers\<close>

definition elemAt :: "'b list \<Rightarrow> nat \<Rightarrow> 'b option" where
  "elemAt xs i = (if i < length xs then Some (xs ! i) else None)"

text \<open>\<^verbatim>\<open>n - 1\<close> on a \<^verbatim>\<open>size_t\<close>: it wraps to \<open>2 ^ 64 - 1\<close> at zero.\<close>

definition sizeMinus1 :: "nat \<Rightarrow> nat" where
  "sizeMinus1 n = (if n = 0 then 2 ^ 64 - 1 else n - 1)"

text \<open>\<^verbatim>\<open>laserCloudScans[scanID].push_back(point)\<close>.\<close>

definition pushBack :: "'b list list \<Rightarrow> nat \<Rightarrow> 'b \<Rightarrow> 'b list list" where
  "pushBack scans i p = scans[i := scans ! i @ [p]]"

section \<open>Sweep orientation\<close>

text \<open>
  Lines 90 to 97 of \<^verbatim>\<open>process\<close>, for the first point \<open>p0\<close> and the last point \<open>pl\<close>.
  \<^verbatim>\<open>startOri\<close> and \<^verbatim>\<open>endOri\<close> are \<^verbatim>\<open>float\<close> variables: their difference is a
  \<^verbatim>\<open>float\<close>, compared with a \<^verbatim>\<open>double\<close>, and the correction of \<^verbatim>\<open>endOri\<close> is
  computed in \<^verbatim>\<open>double\<close> and stored as a \<^verbatim>\<open>float\<close>.
\<close>

definition sweepOrientation :: "PointXYZ \<Rightarrow> PointXYZ \<Rightarrow> cfloat \<times> cfloat" where
  "sweepOrientation p0 pl =
     (let startOri = fneg (fatan2 (in_y p0) (in_x p0));
          endOri = toFloat (fadd (fneg (fatan2 (in_y pl) (in_x pl))) twoPiFloat)
      in if fgt (toFloat (fsub endOri startOri)) threePi
         then (startOri, toFloat (toDouble (fsub endOri twoPi)))
         else if flt (toFloat (fsub endOri startOri)) (Fin M_PI)
         then (startOri, toFloat (toDouble (fadd endOri twoPi)))
         else (startOri, endOri))"

text \<open>
  The two reads of the input vector at lines 90 to 92, at index \<open>0\<close> and at index
  \<^verbatim>\<open>cloudSize - 1\<close> (a \<^verbatim>\<open>size_t\<close>). A read outside the vector is an error.
\<close>

definition sweepEndpoints :: "PointXYZ list \<Rightarrow> error + PointXYZ \<times> PointXYZ" where
  "sweepEndpoints laserCloudIn =
     (let cloudSize = length laserCloudIn
      in case elemAt laserCloudIn 0 of
           None \<Rightarrow> Inl OutOfBounds
         | Some p0 \<Rightarrow>
             (case elemAt laserCloudIn (sizeMinus1 cloudSize) of
                None \<Rightarrow> Inl OutOfBounds
              | Some pl \<Rightarrow> Inr (p0, pl)))"


section \<open>Per-point classification\<close>

text \<open>
  Line 123: the vertical angle in degrees of the remapped point \<open>(px, py, pz)\<close>. A
  division by a zero square root gives an infinity, whose arc tangent is a right angle.
\<close>

definition verticalAngle :: "cfloat \<Rightarrow> cfloat \<Rightarrow> cfloat \<Rightarrow> cfloat" where
  "verticalAngle px py pz =
     fdiv (fmul (fatan (fdiv py (fsqrt (fadd (fmul px px) (fmul pz pz))))) (Fin 180)) (Fin pi)"

text \<open>Line 124: \<^verbatim>\<open>int(angle + (angle < 0.0 ? -0.5 : 0.5))\<close>.\<close>

definition roundedAngleOf :: "cfloat \<Rightarrow> int option" where
  "roundedAngleOf angle = toInt (fadd angle (if flt angle (Fin 0) then Fin (- (1 / 2)) else Fin (1 / 2)))"

text \<open>Line 125; \<^verbatim>\<open>_nScans - 1\<close> is computed in \<^verbatim>\<open>int\<close>.\<close>

definition scanIDOf :: "nat \<Rightarrow> int \<Rightarrow> int" where
  "scanIDOf n roundedAngle =
     (if 0 < roundedAngle then roundedAngle else roundedAngle + (int n - 1))"

text \<open>
  Lines 131 to 150: the horizontal angle \<open>ori\<close> of a point is shifted by turns against the
  start orientation before the half-way mark and against the end orientation after it.
  The result is the shifted angle and the new value of \<^verbatim>\<open>halfPassed\<close>. \<^verbatim>\<open>ori\<close> is
  a \<^verbatim>\<open>float\<close>; the bounds it is compared with and the shifted angles are computed in
  \<^verbatim>\<open>double\<close>, and a shifted angle is stored as a \<^verbatim>\<open>float\<close>.
\<close>

definition unwrapOri :: "cfloat \<Rightarrow> cfloat \<Rightarrow> bool \<Rightarrow> cfloat \<Rightarrow> cfloat \<times> bool" where
  "unwrapOri startOri endOri half ori0 =
     (if \<not> half then
        let ori = (if flt ori0 (toDouble (fsub startOri halfPi))
                   then toFloat (toDouble (fadd ori0 twoPi))
                   else if fgt ori0 (toDouble (fadd startOri threeHalfPi))
                   then toFloat (toDouble (fsub ori0 twoPi))
                   else ori0)
        in (ori, fgt (toFloat (fsub ori startOri)) (Fin M_PI))
      else
        let ori1 = toFloat (toDouble (fadd ori0 twoPi));
            ori = (if flt ori1 (toDouble (fsub endOri threeHalfPi))
                   then toFloat (toDouble (fadd ori1 twoPi))
                   else if fgt ori1 (toDouble (fadd endOri halfPi))
                   then toFloat (toDouble (fsub ori1 twoPi))
                   else ori1)
        in (ori, True))"

text \<open>Line 153.\<close>

definition relTimeOf :: "cfloat \<Rightarrow> cfloat \<Rightarrow> cfloat \<Rightarrow> cfloat \<Rightarrow> cfloat" where
  "relTimeOf period startOri endOri ori =
     fdiv (fmul period (fsub ori startOri)) (fsub endOri startOri)"

section \<open>Motion compensation\<close>

text \<open>
  Lines 158 to 160: the cursor into the history moves forward while the entry under it is
  older than the point and is not the last one. The loop runs only for a non-empty history.
\<close>

function advanceImu :: "'a IMUState list \<Rightarrow> real \<Rightarrow> cfloat \<Rightarrow> nat \<Rightarrow> nat" where
  "advanceImu hist scanTime relTime idx =
     (if idx < length hist - 1
         \<and> fgt (fadd (Fin (scanTime - stamp (hist ! idx))) relTime) (Fin 0)
      then advanceImu hist scanTime relTime (Suc idx)
      else idx)"
  by pat_completeness auto
termination
  by (relation "measure (\<lambda>(hist, scanTime, relTime, idx). length hist - idx)") auto

declare advanceImu.simps [simp del]

text \<open>
  Modelled from the spec: \<^verbatim>\<open>transformToStartIMU(point, relTime)\<close> is a member of the base
  class, whose source is not in \<^verbatim>\<open>VelodyneScanRegistration.cpp\<close>. The spec has it transform the point's
  coordinates from the current interpolated frame into the sweep-start frame, in place, and
  leave the packed ring/time scalar untouched; the rotation itself is the collaborator's.
\<close>

definition transformToStartIMU ::
    "'a collaborators \<Rightarrow> 'a IMUState \<Rightarrow> PointXYZI \<Rightarrow> cfloat \<Rightarrow> PointXYZI" where
  "transformToStartIMU c cur point relTime =
     (case toStartFrame c cur relTime (pt_x point, pt_y point, pt_z point) of
        (x', y', z') \<Rightarrow> point\<lparr>pt_x := x', pt_y := y', pt_z := z'\<rparr>)"

text \<open>
  Lines 157 to 171. The result is the cursor, the value of \<^verbatim>\<open>_imuCur\<close> and the point.
  A cursor past the end of the history makes the read at line 162 leave the container.
\<close>

definition compensate ::
    "'a collaborators \<Rightarrow> 'a IMUState list \<Rightarrow> real \<Rightarrow> cfloat \<Rightarrow> nat \<Rightarrow> 'a IMUState \<Rightarrow> PointXYZI
      \<Rightarrow> error + nat \<times> 'a IMUState \<times> PointXYZI" where
  "compensate c hist scanTime relTime idx0 cur0 point =
     (if 0 < length hist then
        let idx = advanceImu hist scanTime relTime idx0
        in if idx < length hist then
             let cur =
               (if idx = 0 \<or> fgt (fadd (Fin (scanTime - stamp (hist ! idx))) relTime) (Fin 0)
                then hist ! idx
                else
                  let ratio = fdiv (fsub (Fin (stamp (hist ! idx) - scanTime)) relTime)
                                   (Fin (stamp (hist ! idx) - stamp (hist ! (idx - 1))))
                  in interpolate c (hist ! idx) (hist ! (idx - 1)) ratio)
             in Inr (idx, cur, transformToStartIMU c cur point relTime)
           else Inl OutOfBounds
      else Inr (idx0, cur0, point))"

section \<open>The loop over the input points\<close>

text \<open>
  The variables that live across iterations: the locals \<^verbatim>\<open>imuIdx\<close>,
  \<^verbatim>\<open>halfPassed\<close> and \<^verbatim>\<open>laserCloudScans\<close>, and the member \<^verbatim>\<open>_imuCur\<close>.
\<close>

record 'a scanState =
  imuIdx :: nat
  halfPassed :: bool
  curState :: "'a IMUState"
  laserCloudScans :: "PointXYZI list list"

text \<open>One iteration of the loop at lines 105 to 174; \<open>Inr st\<close> on a \<^verbatim>\<open>continue\<close>.\<close>

definition processPoint ::
    "'a collaborators \<Rightarrow> 'a registration \<Rightarrow> real \<Rightarrow> cfloat \<Rightarrow> cfloat \<Rightarrow> 'a scanState \<Rightarrow> PointXYZ
      \<Rightarrow> error + 'a scanState" where
  "processPoint c r scanTime startOri endOri st p =
     (let px = in_y p; py = in_z p; pz = in_x p
      in if \<not> pcl_isfinite px \<or> \<not> pcl_isfinite py \<or> \<not> pcl_isfinite pz then Inr st
         else if flt (fadd (fadd (fmul px px) (fmul py py)) (fmul pz pz)) (Fin 0.0001) then Inr st
         else
           (case roundedAngleOf (verticalAngle px py pz) of
              None \<Rightarrow> Inl UndefinedConversion
            | Some roundedAngle \<Rightarrow>
                let scanID = scanIDOf (nScans r) roundedAngle
                in if scanID > int (nScans r) - 1 \<or> scanID < 0 then Inr st
                   else
                     (case unwrapOri startOri endOri (halfPassed st) (fneg (fatan2 px pz)) of
                        (ori, half) \<Rightarrow>
                          let relTime = relTimeOf (scanPeriod r) startOri endOri ori;
                              point = \<lparr>pt_x = px, pt_y = py, pt_z = pz,
                                       intensity = fadd (Fin (of_int scanID)) relTime\<rparr>
                          in (case compensate c (imuHistory r) scanTime relTime
                                     (imuIdx st) (curState st) point of
                                Inl e \<Rightarrow> Inl e
                              | Inr (idx, cur, point') \<Rightarrow>
                                  if nat scanID < length (laserCloudScans st) then
                                    Inr \<lparr>imuIdx = idx, halfPassed = half, curState = cur,
                                         laserCloudScans =
                                           pushBack (laserCloudScans st) (nat scanID) point'\<rparr>
                                  else Inl OutOfBounds))))"

fun extractPoints ::
    "'a collaborators \<Rightarrow> 'a registration \<Rightarrow> real \<Rightarrow> cfloat \<Rightarrow> cfloat \<Rightarrow> 'a scanState
      \<Rightarrow> PointXYZ list \<Rightarrow> error + 'a scanState" where
  "extractPoints c r scanTime startOri endOri st [] = Inr st"
| "extractPoints c r scanTime startOri endOri st (p # ps) =
     (case processPoint c r scanTime startOri endOri st p of
        Inl e \<Rightarrow> Inl e
      | Inr st' \<Rightarrow> extractPoints c r scanTime startOri endOri st' ps)"

section \<open>Ring assembly\<close>

text \<open>
  Lines 177 to 184, from ring \<open>i\<close> on. The index arrays belong to the base class; a write
  outside them is an error.
\<close>

function assembleFrom ::
    "nat \<Rightarrow> nat \<Rightarrow> PointXYZI list list \<Rightarrow> 'a registration \<Rightarrow> error + 'a registration" where
  "assembleFrom i cloudSize scans r =
     (if i < nScans r then
        if i < length scans \<and> i < length (scanStartIndices r) \<and> i < length (scanEndIndices r)
        then
          let cloudSize' = cloudSize + length (scans ! i)
          in assembleFrom (Suc i) cloudSize' scans
               (r\<lparr>laserCloud := laserCloud r @ scans ! i,
                  scanStartIndices := (scanStartIndices r)[i := cloudSize],
                  scanEndIndices := (scanEndIndices r)[i := sizeMinus1 cloudSize']\<rparr>)
        else Inl OutOfBounds
      else Inr r)"
  by pat_completeness auto
termination
  by (relation "measure (\<lambda>(i, cloudSize, scans, r). nScans r - i)") auto

declare assembleFrom.simps [simp del]

section \<open>Processing a sweep\<close>

text \<open>
  Lines 84 to 174 of \<^verbatim>\<open>process\<close>, after the call of \<^verbatim>\<open>reset\<close>: the sweep
  orientation and the loop over the points, which starts with the cursor that
  \<^verbatim>\<open>reset\<close> left in \<^verbatim>\<open>_imuStartIdx\<close> and with \<^verbatim>\<open>_nScans\<close> empty ring buffers.
  The loop counter is an \<^verbatim>\<open>int\<close>, which overflows on a sweep of \<open>2 ^ 31\<close> points or
  more.
\<close>

definition classifySweep ::
    "'a collaborators \<Rightarrow> 'a registration \<Rightarrow> PointXYZ list \<Rightarrow> real \<Rightarrow> error + 'a scanState" where
  "classifySweep c r laserCloudIn scanTime =
     (case sweepEndpoints laserCloudIn of
        Inl e \<Rightarrow> Inl e
      | Inr (p0, pl) \<Rightarrow>
          (case sweepOrientation p0 pl of
             (startOri, endOri) \<Rightarrow>
               if 2 ^ 31 \<le> length laserCloudIn then Inl SignedOverflow
               else extractPoints c r scanTime startOri endOri
                      \<lparr>imuIdx = imuStartIdx r, halfPassed = False, curState = imuCur r,
                       laserCloudScans = replicate (nScans r) []\<rparr> laserCloudIn))"

text \<open>
  \<^verbatim>\<open>process\<close> up to the end of the assembly (line 184); the calls that follow it hand
  the result to the feature extraction and the publisher.
\<close>

definition process ::
    "'a collaborators \<Rightarrow> 'a registration \<Rightarrow> PointXYZ list \<Rightarrow> real \<Rightarrow> error + 'a registration" where
  "process c r0 laserCloudIn scanTime =
     (let r = reset c scanTime r0
      in case classifySweep c r laserCloudIn scanTime of
           Inl e \<Rightarrow> Inl e
         | Inr st \<Rightarrow> assembleFrom 0 0 (laserCloudScans st) (r\<lparr>imuCur := curState st\<rparr>))"

section \<open>The message handler\<close>

text \<open>
  The constructor initialises the base class, whose result is \<open>base\<close>, and sets
  \<^verbatim>\<open>_systemDelay\<close> to 20.
\<close>

definition VelodyneScanRegistration :: "'a registration \<Rightarrow> 'a registration" where
  "VelodyneScanRegistration base = base\<lparr>systemDelay := 20\<rparr>"

definition processCloudMessage ::
    "'a collaborators \<Rightarrow> 'a registration \<Rightarrow> PointCloud2 \<Rightarrow> error + 'a registration" where
  "processCloudMessage c r laserCloudMsg =
     (if 0 < systemDelay r then Inr (r\<lparr>systemDelay := systemDelay r - 1\<rparr>)
      else process c r (msgPoints laserCloudMsg) (msgStamp laserCloudMsg))"

text \<open>The handler called on a sequence of messages, one after the other.\<close>

fun processCloudMessages ::
    "'a collaborators \<Rightarrow> 'a registration \<Rightarrow> PointCloud2 list \<Rightarrow> error + 'a registration" where
  "processCloudMessages c r [] = Inr r"
| "processCloudMessages c r (m # ms) =
     (case processCloudMessage c r m of
        Inl e \<Rightarrow> Inl e
      | Inr r' \<Rightarrow> processCloudMessages c r' ms)"


section \<open>Predicates and inputs used in the properties\<close>

definition finitePoint :: "PointXYZ \<Rightarrow> bool" where
  "finitePoint p = (pcl_isfinite (in_x p) \<and> pcl_isfinite (in_y p) \<and> pcl_isfinite (in_z p))"

text \<open>A raw point with finite coordinates.\<close>

definition rawPoint :: "real \<Rightarrow> real \<Rightarrow> real \<Rightarrow> PointXYZ" where
  "rawPoint a b c = \<lparr>in_x = Fin a, in_y = Fin b, in_z = Fin c\<rparr>"

text \<open>
  The two tests of the validity filter (lines 111 to 120) and the ring index of line 125,
  as functions of the raw point.
\<close>

definition remappedFinite :: "PointXYZ \<Rightarrow> bool" where
  "remappedFinite p = (pcl_isfinite (in_y p) \<and> pcl_isfinite (in_z p) \<and> pcl_isfinite (in_x p))"

definition nearZero :: "PointXYZ \<Rightarrow> bool" where
  "nearZero p =
     flt (fadd (fadd (fmul (in_y p) (in_y p)) (fmul (in_z p) (in_z p))) (fmul (in_x p) (in_x p)))
         (Fin 0.0001)"

definition validPoint :: "PointXYZ \<Rightarrow> bool" where
  "validPoint p = (remappedFinite p \<and> \<not> nearZero p)"

definition pointScanID :: "nat \<Rightarrow> PointXYZ \<Rightarrow> int option" where
  "pointScanID n p =
     map_option (scanIDOf n) (roundedAngleOf (verticalAngle (in_y p) (in_z p) (in_x p)))"

definition ringInRange :: "nat \<Rightarrow> PointXYZ \<Rightarrow> bool" where
  "ringInRange n p =
     (case pointScanID n p of None \<Rightarrow> False | Some scanID \<Rightarrow> \<not> (scanID > int n - 1 \<or> scanID < 0))"

text \<open>The points that reach a ring buffer.\<close>

definition kept :: "nat \<Rightarrow> PointXYZ \<Rightarrow> bool" where
  "kept n p = (validPoint p \<and> ringInRange n p)"

text \<open>
  The ring assignment in the words of the specification: the vertical angle in degrees
  (a right angle for a point on the vertical axis, where the quotient is infinite), rounded
  to the nearest integer with ties away from zero, and mapped to a ring index.
\<close>

definition specVerticalAngle :: "real \<Rightarrow> real \<Rightarrow> real \<Rightarrow> real" where
  "specVerticalAngle x y z =
     (if x * x + z * z = 0 then (if 0 < y then 90 else - 90)
      else arctan (y / sqrt (x * x + z * z)) * 180 / pi)"

definition roundHalfAway :: "real \<Rightarrow> int" where
  "roundHalfAway \<theta> = (if 0 \<le> \<theta> then \<lfloor>\<theta> + 1 / 2\<rfloor> else - \<lfloor>- \<theta> + 1 / 2\<rfloor>)"

definition specRingID :: "nat \<Rightarrow> real \<Rightarrow> int" where
  "specRingID n \<theta> = (let r = roundHalfAway \<theta> in if 0 < r then r else r + (int n - 1))"

text \<open>
  Modelled from the spec: the element type of \<^verbatim>\<open>_scanStartIndices\<close> and
  \<^verbatim>\<open>_scanEndIndices\<close> is declared in the header of the base class, which is not
  among the sources. The spec describes them as two parallel integer arrays in which an empty
  ring has an inverted range, so a stored \<^verbatim>\<open>size_t\<close> value is read back as a signed
  64-bit integer.
\<close>

definition asSigned :: "nat \<Rightarrow> int" where
  "asSigned v = (if v < 2 ^ 63 then int v else int v - 2 ^ 64)"

definition ringStart :: "'a registration \<Rightarrow> nat \<Rightarrow> int" where
  "ringStart r i = asSigned (scanStartIndices r ! i)"

definition ringEnd :: "'a registration \<Rightarrow> nat \<Rightarrow> int" where
  "ringEnd r i = asSigned (scanEndIndices r ! i)"

text \<open>The number of points in the ring buffers before ring \<open>i\<close>.\<close>

definition sizeBefore :: "'b list list \<Rightarrow> nat \<Rightarrow> nat" where
  "sizeBefore scans i = length (concat (take i scans))"

text \<open>
  Modelled from the spec: the constructor and \<^verbatim>\<open>reset\<close> of the base class are not
  among the sources. The spec has the reset clear the buffers of the previous sweep and the
  two index arrays hold one entry per ring.
\<close>

definition sweepReady :: "'a registration \<Rightarrow> bool" where
  "sweepReady r =
     (laserCloud r = [] \<and> length (scanStartIndices r) = nScans r
      \<and> length (scanEndIndices r) = nScans r)"

text \<open>The ring buffers at the end of the loop over the points of a sweep.\<close>

definition ringBuffers ::
    "'a collaborators \<Rightarrow> 'a registration \<Rightarrow> PointXYZ list \<Rightarrow> real \<Rightarrow> PointXYZI list list" where
  "ringBuffers c r laserCloudIn scanTime =
     (case classifySweep c r laserCloudIn scanTime of
        Inl e \<Rightarrow> []
      | Inr st \<Rightarrow> laserCloudScans st)"

text \<open>The coordinates of \<open>q\<close> are the remapped coordinates of the raw point \<open>p\<close>.\<close>

definition rawCoordinates :: "PointXYZ \<Rightarrow> PointXYZI \<Rightarrow> bool" where
  "rawCoordinates p q = (pt_x q = in_y p \<and> pt_y q = in_z p \<and> pt_z q = in_x p)"




text \<open>
  The sum, over the rings whose index range is not empty, of the number of indices in the
  range.
\<close>

definition ringPointCount :: "'a registration \<Rightarrow> int" where
  "ringPointCount r =
     sum_list (map (\<lambda>i. ringEnd r i - ringStart r i + 1)
                   (filter (\<lambda>i. ringStart r i \<le> ringEnd r i) [0..<nScans r]))"

text \<open>
  An instance of the collaborators and of the registration object, on which the properties
  below are evaluated: the IMU state is one real number, interpolated linearly, and the
  transform shifts the first coordinate by it; the sensor has two rings.
\<close>

definition exampleCollab :: "real collaborators" where
  "exampleCollab =
     \<lparr>reset = (\<lambda>scanTime r. r\<lparr>laserCloud := [], imuStartIdx := 0\<rparr>),
      interpolate = (\<lambda>s e ratio.
         case ratio of
           Fin q \<Rightarrow> \<lparr>stamp = stamp s * (1 - q) + stamp e * q, pose = pose s * (1 - q) + pose e * q\<rparr>
         | _ \<Rightarrow> s),
      toStartFrame = (\<lambda>cur relTime (x, y, z). (fadd x (Fin (pose cur)), y, z))\<rparr>"

definition exampleReg :: "real registration" where
  "exampleReg =
     \<lparr>systemDelay = 0, scanPeriod = Fin (1 / 10), nScans = 2, imuHistory = [],
      imuStartIdx = 0, imuCur = \<lparr>stamp = 0, pose = 0\<rparr>, laserCloud = [],
      scanStartIndices = [0, 0], scanEndIndices = [0, 0]\<rparr>"

definition exampleState :: "real scanState" where
  "exampleState =
     \<lparr>imuIdx = 0, halfPassed = False, curState = \<lparr>stamp = 0, pose = 0\<rparr>,
      laserCloudScans = [[], []]\<rparr>"

text \<open>
  A sweep of three points in the horizontal plane of the sensor, the second one raised by
  45 degrees, and the result of processing it.
\<close>

definition exampleSweep :: "PointXYZ list" where
  "exampleSweep = [rawPoint 1 0 0, rawPoint 1 0 1, rawPoint 1 0 0]"

definition examplePoint :: PointXYZI where
  "examplePoint = \<lparr>pt_x = Fin 0, pt_y = Fin 0, pt_z = Fin 1, intensity = Fin 1\<rparr>"

definition exampleResult :: "real registration" where
  "exampleResult = exampleReg\<lparr>laserCloud := [examplePoint, examplePoint],
      scanStartIndices := [0, 0], scanEndIndices := [2 ^ 64 - 1, 1]\<rparr>"

text \<open>A sweep of one point, and the result of processing it.\<close>

definition singleSweep :: "PointXYZ list" where
  "singleSweep = [rawPoint 1 0 0]"

definition singleResult :: "real registration" where
  "singleResult = exampleReg\<lparr>laserCloud := [examplePoint],
      scanStartIndices := [0, 0], scanEndIndices := [2 ^ 64 - 1, 0]\<rparr>"

text \<open>
  A history of three IMU states, the first one at the time of the sweep, and a sweep whose
  third point has the horizontal angle of the first one again, a quarter of a turn behind
  the second; the state of the loop and the result of processing it.
\<close>

definition exampleHistory :: "real IMUState list" where
  "exampleHistory =
     [\<lparr>stamp = 0, pose = 0\<rparr>, \<lparr>stamp = 1 / 100, pose = 1\<rparr>, \<lparr>stamp = 2 / 100, pose = 5\<rparr>]"

definition exampleRegImu :: "real registration" where
  "exampleRegImu = exampleReg\<lparr>imuHistory := exampleHistory\<rparr>"

definition returningSweep :: "PointXYZ list" where
  "returningSweep = [rawPoint 1 0 0, rawPoint 0 (- 1) 0, rawPoint 1 0 0]"

definition returningState :: "real scanState" where
  "returningState =
     \<lparr>imuIdx = 2, halfPassed = False, curState = \<lparr>stamp = 0, pose = - 3\<rparr>,
      laserCloudScans =
        [[], [\<lparr>pt_x = Fin 0, pt_y = Fin 0, pt_z = Fin 1, intensity = Fin 1\<rparr>,
              \<lparr>pt_x = Fin 4, pt_y = Fin 0, pt_z = Fin 0, intensity = Fin (1 + 1 / 40)\<rparr>,
              \<lparr>pt_x = Fin (- 3), pt_y = Fin 0, pt_z = Fin 1, intensity = Fin 1\<rparr>]]\<rparr>"

definition returningResult :: "real registration" where
  "returningResult =
     exampleRegImu\<lparr>imuCur := \<lparr>stamp = 0, pose = - 3\<rparr>,
       laserCloud := [\<lparr>pt_x = Fin 0, pt_y = Fin 0, pt_z = Fin 1, intensity = Fin 1\<rparr>,
              \<lparr>pt_x = Fin 4, pt_y = Fin 0, pt_z = Fin 0, intensity = Fin (1 + 1 / 40)\<rparr>,
              \<lparr>pt_x = Fin (- 3), pt_y = Fin 0, pt_z = Fin 1, intensity = Fin 1\<rparr>],
       scanStartIndices := [0, 0], scanEndIndices := [2 ^ 64 - 1, 2]\<rparr>"






text \<open>A message that carries the example sweep.\<close>

definition exampleMessage :: PointCloud2 where
  "exampleMessage = \<lparr>msgPoints = exampleSweep, msgStamp = 0\<rparr>"

section \<open>Properties of the rounding\<close>

lemma pow2_powr: "pow2 k = 2 powr (of_int k)"
  by (simp add: pow2_def powr_real_of_int divide_inverse)

lemma pow2_pos [simp]: "0 < pow2 k"
  by (simp add: pow2_powr)

lemma pow2_nonneg [simp]: "0 \<le> pow2 k"
  by (simp add: pow2_powr)

lemma pow2_abs [simp]: "\<bar>pow2 k\<bar> = pow2 k"
  by (simp add: pow2_powr)

lemma pow2_add: "pow2 (j + k) = pow2 j * pow2 k"
  by (simp add: pow2_powr powr_add)

lemma pow2_mono: "j \<le> k \<Longrightarrow> pow2 j \<le> pow2 k"
  by (simp add: pow2_powr)

lemma pow2_nat: "pow2 (int n) = 2 ^ n"
  by (simp add: pow2_def)

lemma binade_eq:
  assumes "pow2 k \<le> \<bar>x\<bar>" and "\<bar>x\<bar> < pow2 (k + 1)"
  shows "binade x = k"
proof -
  from assms(1) have "0 < \<bar>x\<bar>" using pow2_pos [of k] by linarith
  then show ?thesis
    unfolding binade_def using assms floor_log_eq_powr_iff [of "\<bar>x\<bar>" 2 k]
    by (simp add: pow2_powr)
qed

lemma binade_less:
  assumes "x \<noteq> 0" and "\<bar>x\<bar> < pow2 k"
  shows "binade x < k"
proof -
  from assms have "log 2 \<bar>x\<bar> < of_int k"
    by (simp add: pow2_powr less_powr_iff)
  then show ?thesis unfolding binade_def by linarith
qed

lemma roundEven_near: "\<bar>of_int (roundEven x) - x\<bar> \<le> 1 / 2"
  unfolding roundEven_def Let_def by (auto; linarith)

lemma roundEven_eq:
  assumes "of_int n - 1 / 2 < x" and "x < of_int n + 1 / 2"
  shows "roundEven x = n"
proof -
  have "\<bar>of_int (roundEven x) - x\<bar> \<le> 1 / 2" by (rule roundEven_near)
  with assms have "\<bar>(of_int (roundEven x) :: real) - of_int n\<bar> < 1" by linarith
  then have "\<bar>roundEven x - n\<bar> < 1" by (metis of_int_diff of_int_abs of_int_1 of_int_less_iff)
  then show ?thesis by linarith
qed

lemma roundEven_int [simp]: "roundEven (of_int n) = n"
  by (rule roundEven_eq) simp_all

lemma roundEven_tie:
  assumes "x = of_int n + 1 / 2"
  shows "roundEven x = (if even n then n else n + 1)"
proof -
  from assms have "\<lfloor>x\<rfloor> = n" by linarith
  with assms show ?thesis by (simp add: roundEven_def)
qed

lemma roundTo_eval:
  assumes "pow2 k \<le> \<bar>x\<bar>" and "\<bar>x\<bar> < pow2 (k + 1)"
    and "roundEven (x / pow2 (max (k - int p + 1) emin)) = n"
  shows "roundTo p emin x = of_int n * pow2 (max (k - int p + 1) emin)"
proof -
  have "x \<noteq> 0"
  proof
    assume "x = 0"
    with assms(1) have "pow2 k \<le> 0" by simp
    with pow2_pos [of k] show False by linarith
  qed
  with binade_eq [OF assms(1,2)] assms(3) show ?thesis
    by (simp add: roundTo_def)
qed

lemma roundTo_error:
  assumes "\<bar>x\<bar> < pow2 k" and "emin \<le> k - int p"
  shows "\<bar>roundTo p emin x - x\<bar> \<le> pow2 (k - int p) / 2"
proof (cases "x = 0")
  case True
  then show ?thesis by (simp add: roundTo_def)
next
  case False
  let ?j = "max (binade x - int p + 1) emin"
  from binade_less [OF False assms(1)] assms(2) have "?j \<le> k - int p" by simp
  then have u: "pow2 ?j \<le> pow2 (k - int p)" by (rule pow2_mono)
  have nz: "pow2 ?j \<noteq> 0" using pow2_pos [of ?j] by linarith
  have "roundTo p emin x = of_int (roundEven (x / pow2 ?j)) * pow2 ?j"
    using False by (simp add: roundTo_def Let_def)
  moreover have "(of_int (roundEven (x / pow2 ?j)) - x / pow2 ?j) * pow2 ?j
      = of_int (roundEven (x / pow2 ?j)) * pow2 ?j - x"
    using nz by (simp add: left_diff_distrib)
  ultimately have "roundTo p emin x - x = (of_int (roundEven (x / pow2 ?j)) - x / pow2 ?j) * pow2 ?j"
    by simp
  then have "\<bar>roundTo p emin x - x\<bar> = \<bar>of_int (roundEven (x / pow2 ?j)) - x / pow2 ?j\<bar> * pow2 ?j"
    by (simp add: abs_mult)
  also have "\<dots> \<le> 1 / 2 * pow2 ?j"
    by (intro mult_right_mono roundEven_near) simp
  also have "\<dots> \<le> 1 / 2 * pow2 (k - int p)"
    using u by simp
  finally show ?thesis by simp
qed

lemma roundTo_exact:
  assumes "x = of_int m * pow2 j" and "\<bar>m\<bar> < 2 ^ p" and "emin \<le> j"
  shows "roundTo p emin x = x"
proof (cases "x = 0")
  case True
  then show ?thesis by (simp add: roundTo_def)
next
  case False
  define i where "i = max (binade x - int p + 1) emin"
  have "\<bar>x\<bar> = of_int \<bar>m\<bar> * pow2 j" by (simp add: assms(1) abs_mult)
  also have "\<dots> < 2 ^ p * pow2 j"
  proof (rule mult_strict_right_mono)
    from assms(2) have "real_of_int \<bar>m\<bar> < real_of_int (2 ^ p)" by (simp only: of_int_less_iff)
    then show "real_of_int \<bar>m\<bar> < 2 ^ p" by simp
  qed simp
  also have "\<dots> = pow2 (int p + j)" by (simp add: pow2_add pow2_nat)
  finally have "binade x < int p + j" by (rule binade_less [OF False])
  with assms(3) have le: "i \<le> j" by (simp add: i_def)
  then obtain d where d: "j = i + int d" by (metis nonneg_int_cases zle_iff_zadd)
  have pj: "pow2 j = pow2 i * 2 ^ d" by (subst d) (simp add: pow2_add pow2_nat)
  have nz: "pow2 i \<noteq> 0" using pow2_pos [of i] by linarith
  have xi: "x = of_int (m * 2 ^ d) * pow2 i" by (simp add: assms(1) pj)
  then have "x / pow2 i = of_int (m * 2 ^ d)" using nz by simp
  then have "roundEven (x / pow2 i) = m * 2 ^ d" by (simp only: roundEven_int)
  then have "roundTo p emin x = of_int (m * 2 ^ d) * pow2 i"
    using False by (simp add: roundTo_def Let_def i_def)
  with xi show ?thesis by simp
qed

text \<open>A value below \<open>2 ^ k\<close> is converted with an error of at most half a unit of that binade.\<close>

lemma toFloat_error:
  assumes "\<bar>x\<bar> < pow2 k" and "- 125 \<le> k" and "k \<le> 127"
  shows "toFloat (Fin x) = Fin (roundTo 24 (- 149) x)"
    and "\<bar>roundTo 24 (- 149) x - x\<bar> \<le> pow2 (k - 24) / 2"
proof -
  let ?y = "roundTo 24 (- 149) x"
  show err: "\<bar>?y - x\<bar> \<le> pow2 (k - 24) / 2"
    using roundTo_error [of x k "- 149" 24] assms(1,2) by simp
  have "pow2 (k - 24) \<le> pow2 k" by (rule pow2_mono) simp
  with err assms(1) have "\<bar>?y\<bar> < pow2 k + pow2 k" using pow2_pos [of k] by linarith
  also have "\<dots> = pow2 (k + 1)" unfolding pow2_add by (simp add: pow2_def [of 1])
  also have "\<dots> \<le> pow2 128" using assms(3) by (intro pow2_mono) simp
  finally have "\<not> 2 ^ 128 \<le> \<bar>?y\<bar>" by (simp add: pow2_def)
  then show "toFloat (Fin x) = Fin ?y" by (simp add: toFloat.simps Let_def)
qed

lemma toDouble_error:
  assumes "\<bar>x\<bar> < pow2 k" and "- 1021 \<le> k" and "k \<le> 1023"
  shows "toDouble (Fin x) = Fin (roundTo 53 (- 1074) x)"
    and "\<bar>roundTo 53 (- 1074) x - x\<bar> \<le> pow2 (k - 53) / 2"
proof -
  let ?y = "roundTo 53 (- 1074) x"
  show err: "\<bar>?y - x\<bar> \<le> pow2 (k - 53) / 2"
    using roundTo_error [of x k "- 1074" 53] assms(1,2) by simp
  have "pow2 (k - 53) \<le> pow2 k" by (rule pow2_mono) simp
  with err assms(1) have "\<bar>?y\<bar> < pow2 k + pow2 k" using pow2_pos [of k] by linarith
  also have "\<dots> = pow2 (k + 1)" unfolding pow2_add by (simp add: pow2_def [of 1])
  also have "\<dots> \<le> pow2 1024" using assms(3) by (intro pow2_mono) simp
  finally have "\<not> 2 ^ 1024 \<le> \<bar>?y\<bar>" by (simp add: pow2_def)
  then show "toDouble (Fin x) = Fin ?y" by (simp add: toDouble.simps Let_def)
qed

text \<open>
  The conversions of values below 4 and below 16, the sizes of the angles of a sweep.
\<close>

lemma toFloat_below_4:
  assumes "\<bar>x\<bar> < 4"
  obtains y where "toFloat (Fin x) = Fin y" and "\<bar>y - x\<bar> \<le> 1 / 8388608"
  using toFloat_error [of x 2] assms by (simp add: pow2_def)

lemma toFloat_below_16:
  assumes "\<bar>x\<bar> < 16"
  obtains y where "toFloat (Fin x) = Fin y" and "\<bar>y - x\<bar> \<le> 1 / 2097152"
  using toFloat_error [of x 4] assms by (simp add: pow2_def)

lemma toDouble_below_16:
  assumes "\<bar>x\<bar> < 16"
  obtains y where "toDouble (Fin x) = Fin y" and "\<bar>y - x\<bar> \<le> 1 / 1125899906842624"
  using toDouble_error [of x 4] assms by (simp add: pow2_def)

lemma toFloat_eval:
  assumes "pow2 k \<le> \<bar>x\<bar>" and "\<bar>x\<bar> < pow2 (k + 1)" and "- 126 \<le> k" and "k \<le> 126"
    and "roundEven (x / pow2 (k - 23)) = n"
  shows "toFloat (Fin x) = Fin (of_int n * pow2 (k - 23))"
proof -
  from assms(3) have m: "max (k - int 24 + 1) (- 149) = k - 23" by simp
  have "roundEven (x / pow2 (max (k - int 24 + 1) (- 149))) = n"
    unfolding m by (rule assms(5))
  from roundTo_eval [OF assms(1,2) this]
  have "roundTo 24 (- 149) x = of_int n * pow2 (k - 23)" unfolding m .
  moreover have "toFloat (Fin x) = Fin (roundTo 24 (- 149) x)"
    using assms(2,3,4) by (intro toFloat_error(1) [of x "k + 1"]) simp_all
  ultimately show ?thesis by simp
qed

text \<open>A value on the grid of the format is converted to itself.\<close>

lemma toFloat_exact:
  assumes "x = of_int m * pow2 j" and "\<bar>m\<bar> < 2 ^ 24" and "- 149 \<le> j" and "j \<le> 104"
  shows "toFloat (Fin x) = Fin x"
proof -
  have r: "roundTo 24 (- 149) x = x" by (rule roundTo_exact [OF assms(1,2,3)])
  have "\<bar>x\<bar> = of_int \<bar>m\<bar> * pow2 j" by (simp add: assms(1) abs_mult)
  also have "\<dots> < 2 ^ 24 * pow2 j"
  proof (rule mult_strict_right_mono)
    from assms(2) have "real_of_int \<bar>m\<bar> < real_of_int (2 ^ 24)" by (simp only: of_int_less_iff)
    then show "real_of_int \<bar>m\<bar> < 2 ^ 24" by simp
  qed simp
  also have "\<dots> = pow2 (24 + j)" unfolding pow2_add by (simp add: pow2_def [of 24])
  also have "\<dots> \<le> pow2 128" using assms(4) by (intro pow2_mono) simp
  finally have "\<not> 2 ^ 128 \<le> \<bar>x\<bar>" by (simp add: pow2_def)
  then show ?thesis by (simp add: toFloat.simps r Let_def)
qed

lemma toDouble_exact:
  assumes "x = of_int m * pow2 j" and "\<bar>m\<bar> < 2 ^ 53" and "- 1074 \<le> j" and "j \<le> 971"
  shows "toDouble (Fin x) = Fin x"
proof -
  have r: "roundTo 53 (- 1074) x = x" by (rule roundTo_exact [OF assms(1,2,3)])
  have "\<bar>x\<bar> = of_int \<bar>m\<bar> * pow2 j" by (simp add: assms(1) abs_mult)
  also have "\<dots> < 2 ^ 53 * pow2 j"
  proof (rule mult_strict_right_mono)
    from assms(2) have "real_of_int \<bar>m\<bar> < real_of_int (2 ^ 53)" by (simp only: of_int_less_iff)
    then show "real_of_int \<bar>m\<bar> < 2 ^ 53" by simp
  qed simp
  also have "\<dots> = pow2 (53 + j)" unfolding pow2_add by (simp add: pow2_def [of 53])
  also have "\<dots> \<le> pow2 1024" using assms(4) by (intro pow2_mono) simp
  finally have "\<not> 2 ^ 1024 \<le> \<bar>x\<bar>" by (simp add: pow2_def)
  then show ?thesis by (simp add: toDouble.simps r Let_def)
qed

section \<open>Bounds of \<open>\<pi>\<close>\<close>

text \<open>
  The partial sums of the series of the arc tangent enclose its value, and the formula of
  Machin gives \<open>\<pi>\<close> to ten decimal places from them.
\<close>

lemma arctan_partial_sums:
  fixes x :: real
  assumes "0 \<le> x" and "x \<le> 1"
  shows "(\<Sum>i<2 * n. (- 1) ^ i * (1 / real (i * 2 + 1) * x ^ (i * 2 + 1))) \<le> arctan x"
    and "arctan x \<le> (\<Sum>i<2 * n + 1. (- 1) ^ i * (1 / real (i * 2 + 1) * x ^ (i * 2 + 1)))"
proof -
  let ?a = "\<lambda>i. 1 / real (i * 2 + 1) * x ^ (i * 2 + 1)"
  from assms have ax: "\<bar>x\<bar> \<le> 1" by simp
  have zero: "?a \<longlonglongrightarrow> 0" by (rule zeroseq_arctan_series [OF ax])
  have pos: "0 \<le> ?a i" for i using assms(1) by simp
  have mono: "?a (Suc i) \<le> ?a i" for i
  proof (rule mult_mono)
    show "1 / real (Suc i * 2 + 1) \<le> 1 / real (i * 2 + 1)"
      by (intro divide_left_mono) simp_all
    show "x ^ (Suc i * 2 + 1) \<le> x ^ (i * 2 + 1)"
      using assms by (intro power_decreasing) simp_all
    show "0 \<le> 1 / real (i * 2 + 1)" by simp
    show "0 \<le> x ^ (Suc i * 2 + 1)" using assms(1) by simp
  qed
  have s: "arctan x = (\<Sum>i. (- 1) ^ i * ?a i)" by (rule arctan_series [OF ax])
  show "(\<Sum>i<2 * n. (- 1) ^ i * ?a i) \<le> arctan x"
    unfolding s by (rule summable_Leibniz'(2) [OF zero pos mono])
  show "arctan x \<le> (\<Sum>i<2 * n + 1. (- 1) ^ i * ?a i)"
    unfolding s by (rule summable_Leibniz'(4) [OF zero pos mono])
qed

lemma arctan_fifth:
  "271352630414872 / 1374664306640625 \<le> arctan (1 / 5)"
  "arctan (1 / 5) \<le> 23064973585273129 / 116846466064453125"
  using arctan_partial_sums(1) [of "1 / 5" 4] arctan_partial_sums(2) [of "1 / 5" 4]
  by (simp_all add: numeral_eq_Suc)

lemma arctan_239th:
  "171362 / 40955757 \<le> arctan (1 / 239)"
  "arctan (1 / 239) \<le> 48941844013 / 11697168977985"
  using arctan_partial_sums(1) [of "1 / 239" 1] arctan_partial_sums(2) [of "1 / 239" 1]
  by (simp_all add: numeral_eq_Suc)

lemma pi_bounds: "31415926535 / 10000000000 < pi" "pi < 31415926536 / 10000000000"
proof -
  have "pi = 16 * arctan (1 / 5) - 4 * arctan (1 / 239)"
    using machin by simp
  with arctan_fifth arctan_239th
  show "31415926535 / 10000000000 < pi" "pi < 31415926536 / 10000000000"
    by linarith+
qed

lemma M_PI_bounds: "31415926535 / 10000000000 < M_PI" "M_PI < 31415926536 / 10000000000"
  by (simp_all add: M_PI_def)

section \<open>The constants of the code\<close>

lemma floatPi: "toFloat (Fin M_PI) = Fin (13176795 / 4194304)"
proof -
  have "roundEven (M_PI / pow2 (1 - 23)) = 13176795"
    by (rule roundEven_eq) (simp_all add: pow2_def M_PI_def)
  from toFloat_eval [of 1 M_PI, OF _ _ _ _ this] show ?thesis
    by (simp add: pow2_def M_PI_def)
qed

lemma twoPiFloat_eq: "twoPiFloat = Fin (13176795 / 2097152)"
  using toFloat_exact [of "13176795 / 2097152" 13176795 "- 21"]
  by (simp add: twoPiFloat_def floatPi pow2_def)

lemma twoPi_eq: "twoPi = Fin (2 * M_PI)"
  using toDouble_exact [of "2 * M_PI" 884279719003555 "- 47"]
  by (simp add: twoPi_def pow2_def M_PI_def)

lemma threePi_eq: "threePi = Fin (3 * M_PI)"
  using toDouble_exact [of "3 * M_PI" 2652839157010665 "- 48"]
  by (simp add: threePi_def pow2_def M_PI_def)

lemma halfPi_eq: "halfPi = Fin (M_PI / 2)"
  using toDouble_exact [of "M_PI / 2" 884279719003555 "- 49"]
  by (simp add: halfPi_def pow2_def M_PI_def)

lemma threeHalfPi_eq: "threeHalfPi = Fin (3 * M_PI / 2)"
  using toDouble_exact [of "3 * M_PI" 2652839157010665 "- 48"]
    toDouble_exact [of "3 * M_PI / 2" 2652839157010665 "- 49"]
  by (simp add: threeHalfPi_def pow2_def M_PI_def)

section \<open>Properties of the sweep orientation\<close>

lemma atan2_bounds: "- pi \<le> atan2 y x \<and> atan2 y x \<le> pi"
proof -
  have lo: "- (pi / 2) < arctan (y / x)" and hi: "arctan (y / x) < pi / 2"
    by (rule arctan_lbound, rule arctan_ubound)
  consider (pos) "0 < x" | (neg_up) "x < 0" "0 \<le> y" | (neg_down) "x < 0" "y < 0" | (zero) "x = 0"
    by linarith
  then show ?thesis
  proof cases
    case pos
    then have "atan2 y x = arctan (y / x)" by (simp add: atan2_def)
    with lo hi pi_gt_zero show ?thesis by linarith
  next
    case neg_up
    then have "y / x \<le> 0" by (simp add: divide_nonneg_neg)
    then have "arctan (y / x) \<le> 0" by simp
    moreover from neg_up have "atan2 y x = arctan (y / x) + pi" by (simp add: atan2_def)
    ultimately show ?thesis using lo pi_gt_zero by linarith
  next
    case neg_down
    then have "0 < y / x" by (simp add: divide_neg_neg)
    then have "0 < arctan (y / x)" by simp
    moreover from neg_down have "atan2 y x = arctan (y / x) - pi" by (simp add: atan2_def)
    ultimately show ?thesis using hi pi_gt_zero by linarith
  next
    case zero
    then show ?thesis using pi_gt_zero
      by (cases "0 < y"; cases "y < 0"; simp add: atan2_def; linarith)
  qed
qed

lemma fatan2_Fin:
  obtains a where "fatan2 (Fin y) (Fin x) = Fin a" and "\<bar>a - atan2 y x\<bar> \<le> 1 / 8388608"
proof -
  from atan2_bounds [of y x] pi_bounds have "\<bar>atan2 y x\<bar> < 4" by linarith
  from toFloat_below_4 [OF this] that show ?thesis by auto
qed

lemma sweepOrientation_steps:
  assumes "in_x p0 = Fin x0" "in_y p0 = Fin y0" "in_x pl = Fin xl" "in_y pl = Fin yl"
    and "fatan2 (Fin y0) (Fin x0) = Fin a0" and "fatan2 (Fin yl) (Fin xl) = Fin al"
    and "toFloat (Fin (- al + 13176795 / 2097152)) = Fin e0"
    and "toFloat (Fin (e0 + - (- a0))) = Fin d"
  shows "sweepOrientation p0 pl =
      (if 3 * M_PI < d then (Fin (- a0), toFloat (toDouble (Fin (e0 + - (2 * M_PI)))))
       else if d < M_PI then (Fin (- a0), toFloat (toDouble (Fin (e0 + 2 * M_PI))))
       else (Fin (- a0), Fin e0))"
  unfolding sweepOrientation_def assms twoPiFloat_eq twoPi_eq threePi_eq Let_def
    fsub_def fgt_def fneg.simps fadd.simps flt.simps ..


lemma sweepOrientation_bounds:
  assumes "in_x p0 = Fin x0" "in_y p0 = Fin y0" "in_x pl = Fin xl" "in_y pl = Fin yl"
  shows "\<exists>a0 al e k. fatan2 (Fin y0) (Fin x0) = Fin a0 \<and> fatan2 (Fin yl) (Fin xl) = Fin al
           \<and> \<bar>a0 - atan2 y0 x0\<bar> \<le> 1 / 8388608 \<and> \<bar>al - atan2 yl xl\<bar> \<le> 1 / 8388608
           \<and> sweepOrientation p0 pl = (Fin (- a0), Fin e)
           \<and> (k = 0 \<or> k = 1 \<or> k = 2)
           \<and> \<bar>e - (- al + 2 * pi * of_int k)\<bar> \<le> 3 / 2000000
           \<and> pi - 1 / 1000000 \<le> e - (- a0) \<and> e - (- a0) \<le> 3 * pi + 1 / 1000000"
proof -
  obtain a0 where a0: "fatan2 (Fin y0) (Fin x0) = Fin a0" "\<bar>a0 - atan2 y0 x0\<bar> \<le> 1 / 8388608"
    by (rule fatan2_Fin)
  obtain al where al: "fatan2 (Fin yl) (Fin xl) = Fin al" "\<bar>al - atan2 yl xl\<bar> \<le> 1 / 8388608"
    by (rule fatan2_Fin)
  note pb = pi_bounds M_PI_bounds
  from a0(2) atan2_bounds [of y0 x0] have b0: "\<bar>a0\<bar> \<le> pi + 1 / 8388608" by linarith
  from al(2) atan2_bounds [of yl xl] have bl: "\<bar>al\<bar> \<le> pi + 1 / 8388608" by linarith
  from bl pb have "\<bar>- al + 13176795 / 2097152\<bar> < 16" by linarith
  from toFloat_below_16 [OF this] obtain e0 where
    e0: "toFloat (Fin (- al + 13176795 / 2097152)) = Fin e0"
      "\<bar>e0 - (- al + 13176795 / 2097152)\<bar> \<le> 1 / 2097152"
    by blast
  from e0(2) bl b0 pb have "\<bar>e0 + - (- a0)\<bar> < 16" by linarith
  from toFloat_below_16 [OF this] obtain d where
    d: "toFloat (Fin (e0 + - (- a0))) = Fin d" "\<bar>d - (e0 + - (- a0))\<bar> \<le> 1 / 2097152"
    by blast
  note so = sweepOrientation_steps [OF assms a0(1) al(1) e0(1) d(1)]
  consider (A) "3 * M_PI < d" | (B) "\<not> 3 * M_PI < d" "d < M_PI" | (C) "\<not> 3 * M_PI < d" "\<not> d < M_PI"
    by blast
  then show ?thesis
  proof cases
    case A
    from A d(2) e0(2) bl b0 pb have "\<bar>e0 + - (2 * M_PI)\<bar> < 4" by linarith
    then have "\<bar>e0 + - (2 * M_PI)\<bar> < 16" by linarith
    from toDouble_below_16 [OF this] obtain y where
      y: "toDouble (Fin (e0 + - (2 * M_PI))) = Fin y" "\<bar>y - (e0 + - (2 * M_PI))\<bar> \<le> 1 / 1125899906842624"
      by blast
    from y(2) A d(2) e0(2) bl b0 pb have "\<bar>y\<bar> < 4" by linarith
    from toFloat_below_4 [OF this] obtain e where
      e: "toFloat (Fin y) = Fin e" "\<bar>e - y\<bar> \<le> 1 / 8388608"
      by blast
    have "sweepOrientation p0 pl = (Fin (- a0), Fin e)"
      unfolding so if_P [OF A] y(1) e(1) ..
    moreover have "\<bar>e - (- al + 2 * pi * of_int 0)\<bar> \<le> 3 / 2000000"
    proof -
      from e(2) y(2) e0(2) pb have "\<bar>e - (- al)\<bar> \<le> 3 / 2000000" by linarith
      then show ?thesis by simp
    qed
    moreover from e(2) y(2) A d(2) e0(2) bl b0 pb
    have "pi - 1 / 1000000 \<le> e - (- a0)" "e - (- a0) \<le> 3 * pi + 1 / 1000000"
      by linarith+
    ultimately show ?thesis using a0 al by blast
  next
    case B
    from B d(2) e0(2) bl b0 pb have "\<bar>e0 + 2 * M_PI\<bar> < 16" by linarith
    from toDouble_below_16 [OF this] obtain y where
      y: "toDouble (Fin (e0 + 2 * M_PI)) = Fin y" "\<bar>y - (e0 + 2 * M_PI)\<bar> \<le> 1 / 1125899906842624"
      by blast
    from y(2) B d(2) e0(2) bl b0 pb have "\<bar>y\<bar> < 16" by linarith
    from toFloat_below_16 [OF this] obtain e where
      e: "toFloat (Fin y) = Fin e" "\<bar>e - y\<bar> \<le> 1 / 2097152"
      by blast
    have "sweepOrientation p0 pl = (Fin (- a0), Fin e)"
      unfolding so if_not_P [OF B(1)] if_P [OF B(2)] y(1) e(1) ..
    moreover have "\<bar>e - (- al + 2 * pi * of_int 2)\<bar> \<le> 3 / 2000000"
    proof -
      from e(2) y(2) e0(2) pb have "\<bar>e - (- al + 2 * pi * 2)\<bar> \<le> 3 / 2000000" by linarith
      then show ?thesis by simp
    qed
    moreover from e(2) y(2) B d(2) e0(2) bl b0 pb
    have "pi - 1 / 1000000 \<le> e - (- a0)" "e - (- a0) \<le> 3 * pi + 1 / 1000000"
      by linarith+
    ultimately show ?thesis using a0 al by blast
  next
    case C
    have "sweepOrientation p0 pl = (Fin (- a0), Fin e0)"
      unfolding so if_not_P [OF C(1)] if_not_P [OF C(2)] ..
    moreover have "\<bar>e0 - (- al + 2 * pi * of_int 1)\<bar> \<le> 3 / 2000000"
    proof -
      from e0(2) pb have "\<bar>e0 - (- al + 2 * pi)\<bar> \<le> 3 / 2000000" by linarith
      then show ?thesis by simp
    qed
    moreover from C d(2) e0(2) bl b0 pb
    have "pi - 1 / 1000000 \<le> e0 - (- a0)" "e0 - (- a0) \<le> 3 * pi + 1 / 1000000"
      by linarith+
    ultimately show ?thesis using a0 al by blast
  qed
qed

text \<open>The angles of the points on the axes and on the diagonals.\<close>

lemma fatan2_ahead: "fatan2 (Fin 0) (Fin 1) = Fin 0"
  using toFloat_exact [of 0 0 0] by (simp add: atan2_def)

lemma float_half_pi: "toFloat (Fin (pi / 2)) = Fin (13176795 / 8388608)"
proof -
  have "roundEven (pi / 2 / pow2 (0 - 23)) = 13176795"
    using pi_bounds by (intro roundEven_eq) (simp_all add: pow2_def)
  from toFloat_eval [of 0 "pi / 2", OF _ _ _ _ this] pi_bounds show ?thesis
    by (simp add: pow2_def)
qed

lemma float_quarter_pi: "toFloat (Fin (pi / 4)) = Fin (13176795 / 16777216)"
proof -
  have "roundEven (pi / 4 / pow2 (- 1 - 23)) = 13176795"
    using pi_bounds by (intro roundEven_eq) (simp_all add: pow2_def)
  from toFloat_eval [of "- 1" "pi / 4", OF _ _ _ _ this] pi_bounds show ?thesis
    by (simp add: pow2_def)
qed

lemma float_minus_half_pi: "toFloat (Fin (- (pi / 2))) = Fin (- (13176795 / 8388608))"
proof -
  have "roundEven (- (pi / 2) / pow2 (0 - 23)) = - 13176795"
    using pi_bounds by (intro roundEven_eq) (simp_all add: pow2_def)
  from toFloat_eval [of 0 "- (pi / 2)", OF _ _ _ _ this] pi_bounds show ?thesis
    by (simp add: pow2_def)
qed

lemma fatan2_right: "fatan2 (Fin (- 1)) (Fin 0) = Fin (- (13176795 / 8388608))"
  by (simp add: atan2_def float_minus_half_pi)

lemma fatan2_left: "fatan2 (Fin 1) (Fin 0) = Fin (13176795 / 8388608)"
  by (simp add: atan2_def float_half_pi)

lemma fatan2_diagonal: "fatan2 (Fin 1) (Fin 1) = Fin (13176795 / 16777216)"
  by (simp add: atan2_def arctan_one float_quarter_pi)

lemma fatan2_back_diagonal: "fatan2 (Fin (- 1)) (Fin (- 1)) = Fin (- (2470649 / 1048576))"
proof -
  have a: "atan2 (- 1) (- 1) = - (3 * pi / 4)"
    by (simp add: atan2_def arctan_one)
  have "roundEven (- (3 * pi / 4) / pow2 (1 - 23)) = - 9882596"
    using pi_bounds by (intro roundEven_eq) (simp_all add: pow2_def)
  from toFloat_eval [of 1 "- (3 * pi / 4)", OF _ _ _ _ this] pi_bounds
  have "toFloat (Fin (- (3 * pi / 4))) = Fin (- (2470649 / 1048576))"
    by (simp add: pow2_def)
  then show ?thesis by (simp add: a)
qed

section \<open>The example orientations\<close>

lemma float_two_pi: "toFloat (Fin (13176795 / 2097152)) = Fin (13176795 / 2097152)"
  using toFloat_exact [of "13176795 / 2097152" 13176795 "- 21"] by (simp add: pow2_def)

lemma sweepOrientation_example:
  "sweepOrientation (rawPoint 1 0 0) (rawPoint 1 0 0) = (Fin 0, Fin (13176795 / 2097152))"
proof -
  have c: "in_x (rawPoint 1 0 0) = Fin 1" "in_y (rawPoint 1 0 0) = Fin 0"
    by (simp_all add: rawPoint_def)
  have e0: "toFloat (Fin (- 0 + 13176795 / 2097152)) = Fin (13176795 / 2097152)"
    by (simp add: float_two_pi)
  have d: "toFloat (Fin (13176795 / 2097152 + - (- 0))) = Fin (13176795 / 2097152)"
    by (simp add: float_two_pi)
  show ?thesis
    unfolding sweepOrientation_steps [OF c c fatan2_ahead fatan2_ahead e0 d]
    by (simp add: M_PI_def)
qed

text \<open>
  A first point on one diagonal and a last point on the opposite one: the end orientation
  is brought back by a turn and the span that remains is below \<open>\<pi>\<close>.
\<close>

lemma sweepOrientation_diagonal:
  "sweepOrientation (rawPoint 1 1 0) (rawPoint (- 1) (- 1) 0)
     = (Fin (- (13176795 / 16777216)), Fin (9882595 / 4194304))"
proof -
  have c0: "in_x (rawPoint 1 1 0) = Fin 1" "in_y (rawPoint 1 1 0) = Fin 1"
    and cl: "in_x (rawPoint (- 1) (- 1) 0) = Fin (- 1)" "in_y (rawPoint (- 1) (- 1) 0) = Fin (- 1)"
    by (simp_all add: rawPoint_def)
  have "roundEven (18118093 / 2097152 / pow2 (3 - 23)) = 9059046"
    using roundEven_tie [of "18118093 / 2" 9059046] by (simp add: pow2_def)
  from toFloat_eval [of 3 "18118093 / 2097152", OF _ _ _ _ this]
  have e0: "toFloat (Fin (- (- (2470649 / 1048576)) + 13176795 / 2097152)) = Fin (4529523 / 524288)"
    by (simp add: pow2_def)
  have "roundEven (158121531 / 16777216 / pow2 (3 - 23)) = 9882596"
    by (rule roundEven_eq) (simp_all add: pow2_def)
  from toFloat_eval [of 3 "158121531 / 16777216", OF _ _ _ _ this]
  have d: "toFloat (Fin (4529523 / 524288 + - (- (13176795 / 16777216)))) = Fin (2470649 / 262144)"
    by (simp add: pow2_def)
  have y: "toDouble (Fin (4529523 / 524288 + - (2 * M_PI))) = Fin (331604852963933 / 140737488355328)"
    using toDouble_exact [of "331604852963933 / 140737488355328" 331604852963933 "- 47"]
    by (simp add: pow2_def M_PI_def)
  have "roundEven (331604852963933 / 140737488355328 / pow2 (1 - 23)) = 9882595"
    by (rule roundEven_eq) (simp_all add: pow2_def)
  from toFloat_eval [of 1 "331604852963933 / 140737488355328", OF _ _ _ _ this]
  have e: "toFloat (Fin (331604852963933 / 140737488355328)) = Fin (9882595 / 4194304)"
    by (simp add: pow2_def)
  have gt: "3 * M_PI < 2470649 / 262144" by (simp add: M_PI_def)
  show ?thesis
    unfolding sweepOrientation_steps [OF c0 cl fatan2_diagonal fatan2_back_diagonal e0 d]
      if_P [OF gt] y e ..
qed

section \<open>The unwrapping of the horizontal angle\<close>

lemma unwrapOri_before:
  assumes "toDouble (Fin (s + - (M_PI / 2))) = Fin lo" and "toDouble (Fin (s + 3 * M_PI / 2)) = Fin hi"
  shows "unwrapOri (Fin s) endOri False (Fin a) =
     (let ori = (if a < lo then toFloat (toDouble (Fin (a + 2 * M_PI)))
                 else if hi < a then toFloat (toDouble (Fin (a + - (2 * M_PI))))
                 else Fin a)
      in (ori, fgt (toFloat (fsub ori (Fin s))) (Fin M_PI)))"
  unfolding unwrapOri_def halfPi_eq twoPi_eq threeHalfPi_eq fsub_def fgt_def
    fneg.simps fadd.simps assms flt.simps
  by simp


lemma double_bounds_start:
  "toDouble (Fin (0 + - (M_PI / 2))) = Fin (- (M_PI / 2))"
  "toDouble (Fin (0 + 3 * M_PI / 2)) = Fin (3 * M_PI / 2)"
  using toDouble_exact [of "- (M_PI / 2)" "- 884279719003555" "- 49"]
    toDouble_exact [of "3 * M_PI / 2" 2652839157010665 "- 49"]
  by (simp_all add: pow2_def M_PI_def)

lemma float_zero: "toFloat (Fin 0) = Fin 0"
  using toFloat_exact [of 0 0 0] by simp

lemma float_quarter_turn: "toFloat (Fin (13176795 / 8388608)) = Fin (13176795 / 8388608)"
  using toFloat_exact [of "13176795 / 8388608" 13176795 "- 23"] by (simp add: pow2_def)

text \<open>A point ahead of the sensor and a point a quarter of a turn further, in a sweep that starts ahead.\<close>

lemma unwrapOri_ahead: "unwrapOri (Fin 0) endOri False (Fin 0) = (Fin 0, False)"
  unfolding unwrapOri_before [OF double_bounds_start]
  by (simp add: M_PI_def fsub_def fgt_def float_zero)

lemma unwrapOri_quarter:
  "unwrapOri (Fin 0) endOri False (Fin (13176795 / 8388608)) = (Fin (13176795 / 8388608), False)"
  unfolding unwrapOri_before [OF double_bounds_start]
  by (simp add: M_PI_def fsub_def fgt_def float_quarter_turn)

text \<open>
  A point a quarter of a turn behind the start: its angle is below the bound
  \<^verbatim>\<open>startOri - M_PI / 2\<close> by the rounding of the angle alone, a turn is added to it and it
  passes the half-way mark.
\<close>

lemma unwrapOri_behind:
  "unwrapOri (Fin 0) endOri False (fneg (fatan2 (Fin 1) (Fin 0))) = (Fin (2470649 / 524288), True)"
proof -
  have y: "toDouble (Fin (- (13176795 / 8388608) + 2 * M_PI))
      = Fin (- (13176795 / 8388608) + 2 * M_PI)"
    using toDouble_exact [of "- (13176795 / 8388608) + 2 * M_PI" 663209783100835 "- 47"]
    by (simp add: pow2_def M_PI_def)
  have "roundEven ((- (13176795 / 8388608) + 2 * M_PI) / pow2 (2 - 23)) = 9882596"
    by (rule roundEven_eq) (simp_all add: pow2_def M_PI_def)
  from toFloat_eval [of 2 "- (13176795 / 8388608) + 2 * M_PI", OF _ _ _ _ this]
  have f: "toFloat (Fin (- (13176795 / 8388608) + 2 * M_PI)) = Fin (2470649 / 524288)"
    by (simp add: pow2_def M_PI_def)
  have g: "toFloat (Fin (2470649 / 524288)) = Fin (2470649 / 524288)"
    using toFloat_exact [of "2470649 / 524288" 2470649 "- 19"] by (simp add: pow2_def)
  have lt: "- (13176795 / 8388608) < - (M_PI / 2)" by (simp add: M_PI_def)
  show ?thesis
    unfolding fatan2_left fneg.simps unwrapOri_before [OF double_bounds_start] if_P [OF lt] y f Let_def
    by (simp add: fsub_def fgt_def g M_PI_def)
qed


lemma sweepEndpoints_nonempty:
  assumes "laserCloudIn \<noteq> []"
  shows "sweepEndpoints laserCloudIn = Inr (hd laserCloudIn, last laserCloudIn)"
proof -
  from assms have "0 < length laserCloudIn" by simp
  moreover from assms have "sizeMinus1 (length laserCloudIn) = length laserCloudIn - 1"
    by (simp add: sizeMinus1_def)
  ultimately show ?thesis
    using assms by (simp add: sweepEndpoints_def elemAt_def hd_conv_nth last_conv_nth)
qed

text \<open>
  C1 (amended). For a sweep of at least two points whose first and last points are finite,
  the start orientation is the negated \<^verbatim>\<open>float\<close> angle of the first point, within
  \<open>2\<^sup>-\<^sup>2\<^sup>3\<close> of the exact angle; the corrected end orientation is within \<open>2 \<cdot> 10\<^sup>-\<^sup>6\<close> of the
  negated exact angle of the last point plus zero, one or two turns; and the span between
  them lies between \<open>\<pi> - 10\<^sup>-\<^sup>6\<close> and \<open>3\<pi> + 10\<^sup>-\<^sup>6\<close>.
\<close>

theorem sweep_span_near_range:
  assumes "2 \<le> length laserCloudIn"
    and "hd laserCloudIn = rawPoint x0 y0 z0" and "last laserCloudIn = rawPoint xl yl zl"
  shows "\<exists>s e k. sweepEndpoints laserCloudIn = Inr (hd laserCloudIn, last laserCloudIn)
           \<and> sweepOrientation (hd laserCloudIn) (last laserCloudIn) = (Fin s, Fin e)
           \<and> Fin s = fneg (fatan2 (Fin y0) (Fin x0)) \<and> \<bar>s - (- atan2 y0 x0)\<bar> \<le> 1 / 8388608
           \<and> (k = 0 \<or> k = 1 \<or> k = 2)
           \<and> \<bar>e - (- atan2 yl xl + 2 * pi * of_int k)\<bar> \<le> 2 / 1000000
           \<and> pi - 1 / 1000000 \<le> e - s \<and> e - s \<le> 3 * pi + 1 / 1000000"
proof -
  from assms(1) have ne: "laserCloudIn \<noteq> []" by auto
  have c: "in_x (hd laserCloudIn) = Fin x0" "in_y (hd laserCloudIn) = Fin y0"
    "in_x (last laserCloudIn) = Fin xl" "in_y (last laserCloudIn) = Fin yl"
    by (simp_all add: assms(2,3) rawPoint_def)
  from sweepOrientation_bounds [OF c] obtain a0 al e and k :: int where
    b: "fatan2 (Fin y0) (Fin x0) = Fin a0" "\<bar>a0 - atan2 y0 x0\<bar> \<le> 1 / 8388608"
      "\<bar>al - atan2 yl xl\<bar> \<le> 1 / 8388608"
      "sweepOrientation (hd laserCloudIn) (last laserCloudIn) = (Fin (- a0), Fin e)"
      "k = 0 \<or> k = 1 \<or> k = 2"
      "\<bar>e - (- al + 2 * pi * of_int k)\<bar> \<le> 3 / 2000000"
      "pi - 1 / 1000000 \<le> e - (- a0)" "e - (- a0) \<le> 3 * pi + 1 / 1000000"
    by blast
  from b(2) have "\<bar>- a0 - (- atan2 y0 x0)\<bar> \<le> 1 / 8388608" by linarith
  moreover from b(3,6) have "\<bar>e - (- atan2 yl xl + 2 * pi * of_int k)\<bar> \<le> 2 / 1000000"
    by linarith
  moreover have "Fin (- a0) = fneg (fatan2 (Fin y0) (Fin x0))" by (simp only: b(1) fneg.simps)
  ultimately show ?thesis
    using b(4,5,7,8) sweepEndpoints_nonempty [OF ne] by blast
qed

theorem sweep_span_near_range_witness:
  "2 \<le> length [rawPoint 1 1 0, rawPoint (- 1) (- 1) 0]
   \<and> hd [rawPoint 1 1 0, rawPoint (- 1) (- 1) 0] = rawPoint 1 1 0
   \<and> last [rawPoint 1 1 0, rawPoint (- 1) (- 1) 0] = rawPoint (- 1) (- 1) 0
   \<and> (\<exists>s e k. sweepEndpoints [rawPoint 1 1 0, rawPoint (- 1) (- 1) 0]
            = Inr (rawPoint 1 1 0, rawPoint (- 1) (- 1) 0)
          \<and> sweepOrientation (rawPoint 1 1 0) (rawPoint (- 1) (- 1) 0) = (Fin s, Fin e)
          \<and> Fin s = fneg (fatan2 (Fin 1) (Fin 1)) \<and> \<bar>s - (- atan2 1 1)\<bar> \<le> 1 / 8388608
          \<and> (k = 0 \<or> k = 1 \<or> k = 2)
          \<and> \<bar>e - (- atan2 (- 1) (- 1) + 2 * pi * of_int k)\<bar> \<le> 2 / 1000000
          \<and> pi - 1 / 1000000 \<le> e - s \<and> e - s \<le> 3 * pi + 1 / 1000000)"
  using sweep_span_near_range [of "[rawPoint 1 1 0, rawPoint (- 1) (- 1) 0]" 1 1 0 "- 1" "- 1" 0]
  by simp

text \<open>
  C1 as the specification states it has the span in \<open>[\<pi>, 3\<pi>]\<close>. For a first point on one
  diagonal and a last point on the opposite one the difference of the orientations, rounded
  to \<^verbatim>\<open>float\<close>, is above \<^verbatim>\<open>3 * M_PI\<close>; a turn is subtracted from the end
  orientation, and the span that is left is below \<open>\<pi>\<close>.
\<close>

theorem sweep_span_counterexample:
  "2 \<le> length [rawPoint 1 1 0, rawPoint (- 1) (- 1) 0]
   \<and> finitePoint (rawPoint 1 1 0) \<and> finitePoint (rawPoint (- 1) (- 1) 0)
   \<and> sweepEndpoints [rawPoint 1 1 0, rawPoint (- 1) (- 1) 0]
       = Inr (rawPoint 1 1 0, rawPoint (- 1) (- 1) 0)
   \<and> sweepOrientation (rawPoint 1 1 0) (rawPoint (- 1) (- 1) 0)
       = (Fin (- (13176795 / 16777216)), Fin (9882595 / 4194304))
   \<and> 9882595 / 4194304 - (- (13176795 / 16777216)) < pi"
proof -
  have "9882595 / 4194304 - (- (13176795 / 16777216)) < pi"
    using pi_bounds by simp
  moreover have "finitePoint (rawPoint 1 1 0)" "finitePoint (rawPoint (- 1) (- 1) 0)"
    by (simp_all add: finitePoint_def rawPoint_def)
  ultimately show ?thesis
    by (simp add: sweepOrientation_diagonal sweepEndpoints_nonempty)
qed

section \<open>Properties of the ring assignment\<close>

lemma verticalAngle_valid:
  assumes "\<not> a * a + b * b + c * c < 0.0001"
  shows "verticalAngle (Fin a) (Fin b) (Fin c) = Fin (specVerticalAngle a b c)"
proof (cases "a * a + c * c = 0")
  case True
  with assms have "b \<noteq> 0" by auto
  with True show ?thesis
    by (auto simp: verticalAngle_def specVerticalAngle_def)
next
  case False
  have "\<not> a * a + c * c < 0" by (simp add: not_less)
  with False show ?thesis
    by (simp add: verticalAngle_def specVerticalAngle_def)
qed

lemma truncate_round:
  "cTruncate (\<theta> + (if \<theta> < 0 then - (1 / 2) else 1 / 2)) = roundHalfAway \<theta>"
  by (simp add: cTruncate_def roundHalfAway_def ceiling_def)

lemma roundedAngleOf_Fin: "roundedAngleOf (Fin \<theta>) = Some (roundHalfAway \<theta>)"
  using truncate_round [of \<theta>] by (cases "\<theta> < 0") (simp_all add: roundedAngleOf_def)




lemma validPoint_iff:
  "validPoint p \<longleftrightarrow>
     (\<exists>a b c. in_y p = Fin a \<and> in_z p = Fin b \<and> in_x p = Fin c \<and> \<not> a * a + b * b + c * c < 0.0001)"
  by (cases "in_x p"; cases "in_y p"; cases "in_z p")
     (simp_all add: validPoint_def remappedFinite_def nearZero_def)

lemma pointScanID_valid:
  assumes "in_y p = Fin a" "in_z p = Fin b" "in_x p = Fin c" "\<not> a * a + b * b + c * c < 0.0001"
  shows "pointScanID n p = Some (specRingID n (specVerticalAngle a b c))"
  using assms
  by (simp add: pointScanID_def verticalAngle_valid roundedAngleOf_Fin specRingID_def scanIDOf_def)

lemma processPoint_skip:
  assumes "\<not> kept (nScans r) p"
  shows "processPoint c r scanTime startOri endOri st p = Inr st"
proof (cases "validPoint p")
  case False
  then show ?thesis
    by (auto simp: processPoint_def validPoint_def remappedFinite_def nearZero_def Let_def)
next
  case True
  then obtain a b c where v: "in_y p = Fin a" "in_z p = Fin b" "in_x p = Fin c"
      "\<not> a * a + b * b + c * c < 0.0001"
    unfolding validPoint_iff by blast
  from assms True pointScanID_valid [OF v, of "nScans r"]
  have "specRingID (nScans r) (specVerticalAngle a b c) > int (nScans r) - 1
      \<or> specRingID (nScans r) (specVerticalAngle a b c) < 0"
    by (auto simp: kept_def ringInRange_def)
  moreover have "roundedAngleOf (verticalAngle (Fin a) (Fin b) (Fin c))
      = Some (roundHalfAway (specVerticalAngle a b c))"
    using v(4) by (simp add: verticalAngle_valid roundedAngleOf_Fin)
  ultimately show ?thesis
    using v by (auto simp: processPoint_def Let_def specRingID_def scanIDOf_def)
qed

lemma processPoint_kept:
  assumes "kept (nScans r) p" and "pointScanID (nScans r) p = Some scanID"
  shows "processPoint c r scanTime startOri endOri st p =
     (case unwrapOri startOri endOri (halfPassed st) (fneg (fatan2 (in_y p) (in_x p))) of
        (ori, half) \<Rightarrow>
          let relTime = relTimeOf (scanPeriod r) startOri endOri ori;
              point = \<lparr>pt_x = in_y p, pt_y = in_z p, pt_z = in_x p,
                       intensity = fadd (Fin (of_int scanID)) relTime\<rparr>
          in (case compensate c (imuHistory r) scanTime relTime (imuIdx st) (curState st) point of
                Inl e \<Rightarrow> Inl e
              | Inr (idx, cur, point') \<Rightarrow>
                  if nat scanID < length (laserCloudScans st) then
                    Inr \<lparr>imuIdx = idx, halfPassed = half, curState = cur,
                         laserCloudScans = pushBack (laserCloudScans st) (nat scanID) point'\<rparr>
                  else Inl OutOfBounds))"
proof -
  from assms(1) obtain a b c where v: "in_y p = Fin a" "in_z p = Fin b" "in_x p = Fin c"
      "\<not> a * a + b * b + c * c < 0.0001"
    unfolding kept_def validPoint_iff by blast
  have ra: "roundedAngleOf (verticalAngle (Fin a) (Fin b) (Fin c))
      = Some (roundHalfAway (specVerticalAngle a b c))"
    using v(4) by (simp add: verticalAngle_valid roundedAngleOf_Fin)
  from assms(2) pointScanID_valid [OF v, of "nScans r"]
  have sid: "scanID = specRingID (nScans r) (specVerticalAngle a b c)" by simp
  from assms sid have rng: "\<not> (scanID > int (nScans r) - 1 \<or> scanID < 0)"
    by (simp add: kept_def ringInRange_def)
  have sid': "scanIDOf (nScans r) (roundHalfAway (specVerticalAngle a b c)) = scanID"
    by (simp add: sid specRingID_def scanIDOf_def)
  show ?thesis
    using v rng by (simp add: processPoint_def ra sid' Let_def)
qed



lemma specVerticalAngle_diagonal: "specVerticalAngle 0 1 1 = 45"
  by (simp add: specVerticalAngle_def arctan_one)

lemma roundHalfAway_45: "roundHalfAway 45 = 45"
proof -
  have "\<lfloor>(45::real) + 1 / 2\<rfloor> = 45" by linarith
  then show ?thesis by (simp add: roundHalfAway_def)
qed

section \<open>Properties of the loop over the points\<close>

lemma pushBack_length [simp]: "length (pushBack scans i q) = length scans"
  by (simp add: pushBack_def)

lemma pushBack_sizes:
  assumes "i < length scans"
  shows "sum_list (map length (pushBack scans i q)) = Suc (sum_list (map length scans))"
proof -
  have "map length (pushBack scans i q) = (map length scans)[i := Suc (length (scans ! i))]"
    by (simp add: pushBack_def map_update)
  moreover have "map length scans ! i = length (scans ! i)"
    using assms by simp
  moreover have "length (scans ! i) \<le> sum_list (map length scans)"
  proof (rule member_le_sum_list)
    from assms show "length (scans ! i) \<in> set (map length scans)" by simp
  qed simp
  ultimately show ?thesis
    using assms by (simp add: sum_list_update)
qed


lemma processPoint_kept_result:
  assumes "kept (nScans r) p" and "pointScanID (nScans r) p = Some scanID"
    and "processPoint c r scanTime startOri endOri st p = Inr st'"
  shows "\<exists>q. nat scanID < length (laserCloudScans st)
            \<and> laserCloudScans st' = pushBack (laserCloudScans st) (nat scanID) q"
  using assms(3) unfolding processPoint_kept [OF assms(1,2)]
  by (auto simp: Let_def split: prod.splits sum.splits if_splits)

lemma kept_scanID:
  assumes "kept n p"
  obtains scanID where "pointScanID n p = Some scanID" "0 \<le> scanID" "scanID \<le> int n - 1"
  using assms by (auto simp: kept_def ringInRange_def split: option.splits)

lemma extractPoints_filter:
  "extractPoints c r scanTime startOri endOri st ps
     = extractPoints c r scanTime startOri endOri st (filter (kept (nScans r)) ps)"
proof (induction ps arbitrary: st)
  case Nil
  show ?case by simp
next
  case (Cons p ps)
  show ?case
  proof (cases "kept (nScans r) p")
    case True
    then show ?thesis using Cons.IH by (simp split: sum.splits)
  next
    case False
    then show ?thesis using Cons.IH by (simp add: processPoint_skip)
  qed
qed

lemma extractPoints_sizes:
  assumes "extractPoints c r scanTime startOri endOri st ps = Inr st'"
  shows "length (laserCloudScans st') = length (laserCloudScans st)
       \<and> sum_list (map length (laserCloudScans st'))
           = sum_list (map length (laserCloudScans st)) + length (filter (kept (nScans r)) ps)"
  using assms
proof (induction ps arbitrary: st)
  case Nil
  then show ?case by simp
next
  case (Cons p ps)
  from Cons.prems obtain st1 where
    step: "processPoint c r scanTime startOri endOri st p = Inr st1"
    and rest: "extractPoints c r scanTime startOri endOri st1 ps = Inr st'"
    by (auto split: sum.splits)
  note IH = Cons.IH [OF rest]
  show ?case
  proof (cases "kept (nScans r) p")
    case False
    with step have "st1 = st" by (simp add: processPoint_skip)
    with IH False show ?thesis by simp
  next
    case True
    then obtain scanID where sid: "pointScanID (nScans r) p = Some scanID"
      by (rule kept_scanID)
    from processPoint_kept_result [OF True sid step] obtain q where
      "nat scanID < length (laserCloudScans st)"
      "laserCloudScans st1 = pushBack (laserCloudScans st) (nat scanID) q"
      by blast
    with IH True show ?thesis by (simp add: pushBack_sizes)
  qed
qed




text \<open>
  C6. A point whose remapped coordinates are not all finite, or whose squared norm is
  below \<open>0.0001\<close>, or whose ring index is outside \<open>[0, N - 1]\<close>, leaves the state of the
  loop as it was and raises no error; the loop, and for a point inside the sweep the whole
  of \<^verbatim>\<open>process\<close>, gives the result it gives on the sweep without that point.
\<close>

theorem invalid_points_skipped:
  assumes "\<not> remappedFinite p \<or> nearZero p
      \<or> (\<exists>scanID. pointScanID (nScans r) p = Some scanID
            \<and> (scanID < 0 \<or> int (nScans r) - 1 < scanID))"
  shows "processPoint c r scanTime startOri endOri st p = Inr st
       \<and> extractPoints c r scanTime startOri endOri st (before @ p # after)
           = extractPoints c r scanTime startOri endOri st (before @ after)
       \<and> (before \<noteq> [] \<and> after \<noteq> [] \<and> r = reset c scanTime r0 \<longrightarrow>
            process c r0 (before @ p # after) scanTime = process c r0 (before @ after) scanTime
            \<or> 2 ^ 31 \<le> length (before @ p # after))"
proof -
  from assms have nk: "\<not> kept (nScans r) p"
    by (auto simp: kept_def validPoint_def ringInRange_def)
  have loop: "extractPoints c r scanTime s e st' (before @ p # after)
      = extractPoints c r scanTime s e st' (before @ after)" for s e st'
    using nk
      extractPoints_filter [of c r scanTime s e st' "before @ p # after"]
      extractPoints_filter [of c r scanTime s e st' "before @ after"]
    by simp
  have "process c r0 (before @ p # after) scanTime = process c r0 (before @ after) scanTime"
    if "before \<noteq> []" "after \<noteq> []" "r = reset c scanTime r0"
      "\<not> (2::nat) ^ 31 \<le> length (before @ p # after)"
  proof -
    from that(1,2) have ends: "sweepEndpoints (before @ p # after) = Inr (hd before, last after)"
      "sweepEndpoints (before @ after) = Inr (hd before, last after)"
      by (simp_all add: sweepEndpoints_nonempty)
    obtain s e where ori: "sweepOrientation (hd before) (last after) = (s, e)"
      by (cases "sweepOrientation (hd before) (last after)")
    from that(4) have short: "\<not> (2::nat) ^ 31 \<le> length (before @ after)" by simp
    have "classifySweep c r (before @ p # after) scanTime = classifySweep c r (before @ after) scanTime"
      unfolding classifySweep_def ends sum.case prod.case ori if_not_P [OF that(4)] if_not_P [OF short]
      by (rule loop)
    then show ?thesis
      unfolding process_def that(3) [symmetric] Let_def by simp
  qed
  with nk loop show ?thesis by (auto simp: processPoint_skip)
qed


theorem invalid_points_skipped_witness:
  "\<not> remappedFinite \<lparr>in_x = NaN, in_y = Fin 1, in_z = Fin 0\<rparr>
   \<and> processPoint exampleCollab exampleReg 0 (Fin 0) (Fin (2 * pi)) exampleState
         \<lparr>in_x = NaN, in_y = Fin 1, in_z = Fin 0\<rparr> = Inr exampleState
   \<and> extractPoints exampleCollab exampleReg 0 (Fin 0) (Fin (2 * pi)) exampleState
         ([rawPoint 1 0 0] @ \<lparr>in_x = NaN, in_y = Fin 1, in_z = Fin 0\<rparr> # [rawPoint 1 0 0])
       = extractPoints exampleCollab exampleReg 0 (Fin 0) (Fin (2 * pi)) exampleState
           ([rawPoint 1 0 0] @ [rawPoint 1 0 0])
   \<and> process exampleCollab exampleReg
         ([rawPoint 1 0 0] @ \<lparr>in_x = NaN, in_y = Fin 1, in_z = Fin 0\<rparr> # [rawPoint 1 0 0]) 0
       = process exampleCollab exampleReg ([rawPoint 1 0 0] @ [rawPoint 1 0 0]) 0"
  using invalid_points_skipped [where p = "\<lparr>in_x = NaN, in_y = Fin 1, in_z = Fin 0\<rparr>"
      and r = exampleReg and c = exampleCollab and scanTime = 0 and startOri = "Fin 0"
      and endOri = "Fin (2 * pi)" and st = exampleState and before = "[rawPoint 1 0 0]"
      and after = "[rawPoint 1 0 0]" and ?r0.0 = exampleReg]
  by (simp add: remappedFinite_def exampleReg_def exampleCollab_def)

section \<open>Properties of the ring assembly\<close>

lemma sizeBefore_Suc:
  "i < length scans \<Longrightarrow> sizeBefore scans (Suc i) = sizeBefore scans i + length (scans ! i)"
  by (simp add: sizeBefore_def take_Suc_conv_app_nth)

lemma sizeBefore_0 [simp]: "sizeBefore scans 0 = 0"
  by (simp add: sizeBefore_def)

lemma sizeBefore_all: "length scans \<le> i \<Longrightarrow> sizeBefore scans i = sum_list (map length scans)"
  by (simp add: sizeBefore_def length_concat)

lemma sizeBefore_mono: "i \<le> j \<Longrightarrow> sizeBefore scans i \<le> sizeBefore scans j"
proof -
  assume "i \<le> j"
  then have "take j scans = take i scans @ drop i (take j scans)"
    by (metis append_take_drop_id min.absorb1 take_take)
  then have "concat (take j scans) = concat (take i scans) @ concat (drop i (take j scans))"
    by (metis concat_append)
  then show ?thesis by (simp add: sizeBefore_def)
qed

lemma assembleFrom_result:
  assumes "assembleFrom i cloudSize scans r = Inr r'"
    and "length scans = nScans r"
    and "length (scanStartIndices r) = nScans r" and "length (scanEndIndices r) = nScans r"
    and "cloudSize = sizeBefore scans i" and "i \<le> nScans r"
  shows "nScans r' = nScans r
       \<and> laserCloud r' = laserCloud r @ concat (drop i scans)
       \<and> length (scanStartIndices r') = nScans r \<and> length (scanEndIndices r') = nScans r
       \<and> (\<forall>j. i \<le> j \<and> j < nScans r \<longrightarrow>
             scanStartIndices r' ! j = sizeBefore scans j
             \<and> scanEndIndices r' ! j = sizeMinus1 (sizeBefore scans (Suc j)))
       \<and> (\<forall>j < i. scanStartIndices r' ! j = scanStartIndices r ! j
             \<and> scanEndIndices r' ! j = scanEndIndices r ! j)"
  using assms
proof (induction i cloudSize scans r rule: assembleFrom.induct)
  case (1 i cloudSize scans r)
  show ?case
  proof (cases "i < nScans r")
    case False
    with "1.prems" show ?thesis by (simp add: assembleFrom.simps [of i])
  next
    case True
    let ?cs = "cloudSize + length (scans ! i)"
    let ?r = "r\<lparr>laserCloud := laserCloud r @ scans ! i,
               scanStartIndices := (scanStartIndices r)[i := cloudSize],
               scanEndIndices := (scanEndIndices r)[i := sizeMinus1 ?cs]\<rparr>"
    from True "1.prems" have guard: "i < length scans \<and> i < length (scanStartIndices r)
        \<and> i < length (scanEndIndices r)" by simp
    from "1.prems"(1) True guard have rec: "assembleFrom (Suc i) ?cs scans ?r = Inr r'"
      by (simp add: Let_def assembleFrom.simps [of i])
    have cs: "?cs = sizeBefore scans (Suc i)"
      using guard "1.prems"(5) by (simp add: sizeBefore_Suc)
    have IH: "nScans r' = nScans ?r
       \<and> laserCloud r' = laserCloud ?r @ concat (drop (Suc i) scans)
       \<and> length (scanStartIndices r') = nScans ?r \<and> length (scanEndIndices r') = nScans ?r
       \<and> (\<forall>j. Suc i \<le> j \<and> j < nScans ?r \<longrightarrow>
             scanStartIndices r' ! j = sizeBefore scans j
             \<and> scanEndIndices r' ! j = sizeMinus1 (sizeBefore scans (Suc j)))
       \<and> (\<forall>j < Suc i. scanStartIndices r' ! j = scanStartIndices ?r ! j
             \<and> scanEndIndices r' ! j = scanEndIndices ?r ! j)"
      using True guard "1.prems" cs
      by (intro "1.IH" [OF True _ refl rec]) simp_all
    have dr: "scans ! i @ concat (drop (Suc i) scans) = concat (drop i scans)"
      using guard by (metis Cons_nth_drop_Suc concat.simps(2))
    have at_i: "scanStartIndices r' ! i = sizeBefore scans i
        \<and> scanEndIndices r' ! i = sizeMinus1 (sizeBefore scans (Suc i))"
      using IH guard cs "1.prems"(5) by simp
    have later: "scanStartIndices r' ! j = sizeBefore scans j
        \<and> scanEndIndices r' ! j = sizeMinus1 (sizeBefore scans (Suc j))"
      if "i \<le> j" "j < nScans r" for j
    proof (cases "j = i")
      case True
      with at_i show ?thesis by simp
    next
      case False
      with that have "Suc i \<le> j" by simp
      with that IH show ?thesis by simp
    qed
    have earlier: "scanStartIndices r' ! j = scanStartIndices r ! j
        \<and> scanEndIndices r' ! j = scanEndIndices r ! j" if "j < i" for j
      using that IH by simp
    from IH have "laserCloud r' = laserCloud r @ (scans ! i @ concat (drop (Suc i) scans))"
      by simp
    then have cloud: "laserCloud r' = laserCloud r @ concat (drop i scans)"
      unfolding dr .
    from IH have "nScans r' = nScans r" "length (scanStartIndices r') = nScans r"
      "length (scanEndIndices r') = nScans r" by simp_all
    with cloud later earlier show ?thesis by blast
  qed
qed

lemma assembleFrom_total:
  assumes "length scans = nScans r"
    and "length (scanStartIndices r) = nScans r" and "length (scanEndIndices r) = nScans r"
  shows "\<exists>r'. assembleFrom i cloudSize scans r = Inr r'"
  using assms
proof (induction i cloudSize scans r rule: assembleFrom.induct)
  case (1 i cloudSize scans r)
  show ?case
  proof (cases "i < nScans r")
    case False
    then show ?thesis by (simp add: assembleFrom.simps [of i])
  next
    case True
    from True "1.prems" have guard: "i < length scans \<and> i < length (scanStartIndices r)
        \<and> i < length (scanEndIndices r)" by simp
    have "\<exists>r'. assembleFrom (Suc i) (cloudSize + length (scans ! i)) scans
        (r\<lparr>laserCloud := laserCloud r @ scans ! i,
           scanStartIndices := (scanStartIndices r)[i := cloudSize],
           scanEndIndices := (scanEndIndices r)[i := sizeMinus1 (cloudSize + length (scans ! i))]\<rparr>)
        = Inr r'"
      using True guard "1.prems" by (intro "1.IH" [OF True _ refl]) simp_all
    with True guard show ?thesis by (simp add: Let_def assembleFrom.simps [of i])
  qed
qed


lemma classifySweep_sizes:
  assumes "classifySweep c r laserCloudIn scanTime = Inr st"
  shows "length (laserCloudScans st) = nScans r
       \<and> sum_list (map length (laserCloudScans st)) = length (filter (kept (nScans r)) laserCloudIn)
       \<and> length laserCloudIn < 2 ^ 31"
proof -
  from assms obtain s e st0 where
    loop: "extractPoints c r scanTime s e st0 laserCloudIn = Inr st"
    and st0: "laserCloudScans st0 = replicate (nScans r) []"
    and len: "\<not> (2::nat) ^ 31 \<le> length laserCloudIn"
    by (auto simp: classifySweep_def split: sum.splits prod.splits if_splits)
  from extractPoints_sizes [OF loop] st0 len show ?thesis
    by (simp add: sum_list_replicate)
qed

lemma process_result:
  assumes "process c r0 laserCloudIn scanTime = Inr r'"
    and "sweepReady (reset c scanTime r0)"
  defines "r \<equiv> reset c scanTime r0"
  defines "scans \<equiv> ringBuffers c r laserCloudIn scanTime"
  shows "length scans = nScans r" and "nScans r' = nScans r"
    and "sum_list (map length scans) = length (filter (kept (nScans r)) laserCloudIn)"
    and "length laserCloudIn < 2 ^ 31"
    and "laserCloud r' = concat scans"
    and "\<And>j. j < nScans r \<Longrightarrow> scanStartIndices r' ! j = sizeBefore scans j"
    and "\<And>j. j < nScans r \<Longrightarrow> scanEndIndices r' ! j = sizeMinus1 (sizeBefore scans (Suc j))"
proof -
  from assms(1) obtain st where
    cl: "classifySweep c r laserCloudIn scanTime = Inr st"
    and asm: "assembleFrom 0 0 (laserCloudScans st) (r\<lparr>imuCur := curState st\<rparr>) = Inr r'"
    by (auto simp: process_def r_def Let_def split: sum.splits)
  have scans: "scans = laserCloudScans st"
    by (simp add: scans_def ringBuffers_def cl)
  note sz = classifySweep_sizes [OF cl]
  from assms(2) have ready: "laserCloud r = []" "length (scanStartIndices r) = nScans r"
    "length (scanEndIndices r) = nScans r"
    by (simp_all add: sweepReady_def r_def)
  have res: "nScans r' = nScans (r\<lparr>imuCur := curState st\<rparr>)
       \<and> laserCloud r' = laserCloud (r\<lparr>imuCur := curState st\<rparr>) @ concat (drop 0 (laserCloudScans st))
       \<and> length (scanStartIndices r') = nScans (r\<lparr>imuCur := curState st\<rparr>)
       \<and> length (scanEndIndices r') = nScans (r\<lparr>imuCur := curState st\<rparr>)
       \<and> (\<forall>j. 0 \<le> j \<and> j < nScans (r\<lparr>imuCur := curState st\<rparr>) \<longrightarrow>
             scanStartIndices r' ! j = sizeBefore (laserCloudScans st) j
             \<and> scanEndIndices r' ! j = sizeMinus1 (sizeBefore (laserCloudScans st) (Suc j)))
       \<and> (\<forall>j < 0. scanStartIndices r' ! j = scanStartIndices (r\<lparr>imuCur := curState st\<rparr>) ! j
             \<and> scanEndIndices r' ! j = scanEndIndices (r\<lparr>imuCur := curState st\<rparr>) ! j)"
    using sz ready by (intro assembleFrom_result [OF asm]) simp_all
  show "length scans = nScans r" using sz scans by simp
  show "nScans r' = nScans r" using res by simp
  show "sum_list (map length scans) = length (filter (kept (nScans r)) laserCloudIn)"
    using sz scans by simp
  show "length laserCloudIn < 2 ^ 31" using sz by simp
  show "laserCloud r' = concat scans" using res ready scans by simp
  show "scanStartIndices r' ! j = sizeBefore scans j" if "j < nScans r" for j
    using res that scans by simp
  show "scanEndIndices r' ! j = sizeMinus1 (sizeBefore scans (Suc j))" if "j < nScans r" for j
    using res that scans by simp
qed

lemma asSigned_small: "n < 2 ^ 31 \<Longrightarrow> asSigned n = int n"
  by (simp add: asSigned_def)

lemma asSigned_sizeMinus1:
  assumes "n < 2 ^ 31"
  shows "asSigned (sizeMinus1 n) = int n - 1"
proof (cases "n = 0")
  case True
  then show ?thesis by (simp add: asSigned_def sizeMinus1_def)
next
  case False
  with assms have "n - 1 < 2 ^ 63" by simp
  with False show ?thesis by (simp add: asSigned_def sizeMinus1_def of_nat_diff)
qed

lemma sizeBefore_le_total: "sizeBefore scans i \<le> sum_list (map length scans)"
proof -
  have "sizeBefore scans i \<le> sizeBefore scans (max i (length scans))"
    by (rule sizeBefore_mono) simp
  then show ?thesis by (simp add: sizeBefore_all)
qed

lemma ring_slice:
  assumes "i < length scans"
  shows "take (length (scans ! i)) (drop (sizeBefore scans i) (concat scans)) = scans ! i"
proof -
  have "scans = take i scans @ scans ! i # drop (Suc i) scans"
    using assms by (simp add: id_take_nth_drop)
  then have "concat scans = concat (take i scans) @ scans ! i @ concat (drop (Suc i) scans)"
    by (metis concat.simps(2) concat_append)
  then show ?thesis by (simp add: sizeBefore_def)
qed



section \<open>The example sweep\<close>

lemma ex_flat:
  assumes "halfPassed st = False" "length (laserCloudScans st) = 2" "e \<noteq> 0"
  shows "processPoint exampleCollab exampleReg 0 (Fin 0) (Fin e) st (rawPoint 1 0 0)
  = Inr (st\<lparr>laserCloudScans := pushBack (laserCloudScans st) 1 \<lparr>pt_x = Fin 0, pt_y = Fin 0, pt_z = Fin 1, intensity = Fin 1\<rparr>\<rparr>)"
  using assms
  by (simp add: processPoint_def exampleReg_def rawPoint_def verticalAngle_def
    roundedAngleOf_def cTruncate_def scanIDOf_def relTimeOf_def compensate_def
    fsub_def fatan2_ahead unwrapOri_ahead Let_def del: fatan2.simps)

lemma ex_diag:
  "processPoint exampleCollab exampleReg 0 startOri endOri st (rawPoint 1 0 1) = Inr st"
proof -
  have "\<not> kept (nScans exampleReg) (rawPoint 1 0 1)"
    using pointScanID_valid [of "rawPoint 1 0 1" 0 1 1 2]
    by (simp add: kept_def ringInRange_def rawPoint_def exampleReg_def specVerticalAngle_diagonal
        specRingID_def roundHalfAway_45)
  then show ?thesis by (rule processPoint_skip)
qed

lemma classify_example:
  "classifySweep exampleCollab exampleReg exampleSweep 0
    = Inr \<lparr>imuIdx = 0, halfPassed = False, curState = \<lparr>stamp = 0, pose = 0\<rparr>,
      laserCloudScans = [[], [examplePoint, examplePoint]]\<rparr>"
proof -
  have ends: "sweepEndpoints exampleSweep = Inr (rawPoint 1 0 0, rawPoint 1 0 0)"
    by (simp add: sweepEndpoints_nonempty exampleSweep_def)
  have st0: "\<lparr>imuIdx = imuStartIdx exampleReg, halfPassed = False, curState = imuCur exampleReg,
              laserCloudScans = replicate (nScans exampleReg) []\<rparr> = exampleState"
    by (simp add: exampleReg_def exampleState_def numeral_2_eq_2)
  show ?thesis
    unfolding classifySweep_def ends sum.case prod.case sweepOrientation_example st0
    by (simp add: exampleSweep_def ex_flat ex_diag exampleState_def pushBack_def examplePoint_def)
qed

lemma process_example:
  "process exampleCollab exampleReg exampleSweep 0 = Inr exampleResult"
proof -
  have r: "reset exampleCollab 0 exampleReg = exampleReg"
    by (simp add: exampleCollab_def exampleReg_def)
  show ?thesis
    unfolding process_def r Let_def classify_example sum.case
    by (simp add: exampleReg_def exampleResult_def sizeMinus1_def numeral_2_eq_2
        assembleFrom.simps)
qed


lemma process_ring_indices:
  assumes "process c r0 laserCloudIn scanTime = Inr r'"
    and "sweepReady (reset c scanTime r0)"
    and "i < nScans r'"
  defines "scans \<equiv> ringBuffers c (reset c scanTime r0) laserCloudIn scanTime"
  shows "ringStart r' i = int (sizeBefore scans i)"
    and "ringEnd r' i = int (sizeBefore scans (Suc i)) - 1"
    and "sizeBefore scans (Suc i) = sizeBefore scans i + length (scans ! i)"
proof -
  note res = process_result [OF assms(1,2), folded scans_def]
  from assms(3) res(2) have i: "i < nScans (reset c scanTime r0)" by simp
  have "length (filter (kept (nScans (reset c scanTime r0))) laserCloudIn) \<le> length laserCloudIn"
    by (rule length_filter_le)
  with res(3,4) have total: "sum_list (map length scans) < 2 ^ 31"
    by linarith
  have small: "sizeBefore scans j < 2 ^ 31" for j
    using sizeBefore_le_total [of scans j] total by simp
  show "ringStart r' i = int (sizeBefore scans i)"
    by (simp add: ringStart_def res(6) [OF i] asSigned_small [OF small])
  show "ringEnd r' i = int (sizeBefore scans (Suc i)) - 1"
    by (simp add: ringEnd_def res(7) [OF i] asSigned_sizeMinus1 [OF small])
  show "sizeBefore scans (Suc i) = sizeBefore scans i + length (scans ! i)"
    using i res(1) by (simp add: sizeBefore_Suc)
qed


lemma example_ready: "sweepReady (reset exampleCollab 0 exampleReg)"
  by (simp add: sweepReady_def exampleCollab_def exampleReg_def)

lemma example_ringBuffers:
  "ringBuffers exampleCollab (reset exampleCollab 0 exampleReg) exampleSweep 0
     = [[], [examplePoint, examplePoint]]"
proof -
  have "reset exampleCollab 0 exampleReg = exampleReg"
    by (simp add: exampleCollab_def exampleReg_def)
  then show ?thesis by (simp add: ringBuffers_def classify_example)
qed

lemma example_ranges:
  "ringStart exampleResult 0 = 0" "ringEnd exampleResult 0 = - 1"
  "ringStart exampleResult 1 = 0" "ringEnd exampleResult 1 = 1"
  by (simp_all add: ringStart_def ringEnd_def exampleResult_def exampleReg_def asSigned_def)

text \<open>
  The value stored for the end of the empty ring 0 is the wrapped \<^verbatim>\<open>size_t\<close>; only
  its signed reading is below the start of the ring.
\<close>

lemma example_stored_end:
  "scanEndIndices exampleResult ! 0 = 18446744073709551615"
  "scanStartIndices exampleResult ! 0 = 0"
  by (simp_all add: exampleResult_def exampleReg_def)

section \<open>The index ranges of the rings\<close>

text \<open>
  C3. After the assembly the cloud is the concatenation of the ring buffers in ascending
  ring order; \<open>ringStart i\<close> is the size of the cloud before the buffer of ring \<open>i\<close> is
  appended and \<open>ringEnd i\<close> is the size after it, minus one; the end of a ring is one
  below the start of the next; the range of a ring is inverted exactly when the ring
  received no point; the ranges are in ring order and do not overlap, and the range of a
  ring holds the buffer of that ring.
\<close>

theorem ring_ranges_contiguous:
  assumes "process c r0 laserCloudIn scanTime = Inr r'"
    and "sweepReady (reset c scanTime r0)"
  defines "scans \<equiv> ringBuffers c (reset c scanTime r0) laserCloudIn scanTime"
  shows "length scans = nScans r' \<and> laserCloud r' = concat scans
       \<and> (\<forall>i < nScans r'.
             ringStart r' i = int (length (concat (take i scans)))
             \<and> ringEnd r' i = int (length (concat (take (Suc i) scans))) - 1
             \<and> (Suc i < nScans r' \<longrightarrow> ringEnd r' i = ringStart r' (Suc i) - 1)
             \<and> (ringEnd r' i < ringStart r' i \<longleftrightarrow> scans ! i = [])
             \<and> (\<forall>j < i. ringStart r' j \<le> ringStart r' i \<and> ringEnd r' j < ringStart r' i)
             \<and> take (length (scans ! i)) (drop (nat (ringStart r' i)) (laserCloud r')) = scans ! i)"
proof -
  note res = process_result [OF assms(1,2), folded scans_def]
  note idx = process_ring_indices [OF assms(1,2), folded scans_def]
  have len: "length scans = nScans r'" using res(1,2) by simp
  have "ringStart r' i = int (length (concat (take i scans)))
      \<and> ringEnd r' i = int (length (concat (take (Suc i) scans))) - 1
      \<and> (Suc i < nScans r' \<longrightarrow> ringEnd r' i = ringStart r' (Suc i) - 1)
      \<and> (ringEnd r' i < ringStart r' i \<longleftrightarrow> scans ! i = [])
      \<and> (\<forall>j < i. ringStart r' j \<le> ringStart r' i \<and> ringEnd r' j < ringStart r' i)
      \<and> take (length (scans ! i)) (drop (nat (ringStart r' i)) (laserCloud r')) = scans ! i"
    if i: "i < nScans r'" for i
  proof -
    have a: "ringStart r' i = int (length (concat (take i scans)))"
      using idx(1) [OF i] by (simp add: sizeBefore_def)
    have b: "ringEnd r' i = int (length (concat (take (Suc i) scans))) - 1"
      using idx(2) [OF i] by (simp add: sizeBefore_def)
    have c: "ringEnd r' i = ringStart r' (Suc i) - 1" if "Suc i < nScans r'"
      using idx(2) [OF i] idx(1) [OF that] by simp
    have d: "ringEnd r' i < ringStart r' i \<longleftrightarrow> scans ! i = []"
      using idx(1,2,3) [OF i] by auto
    have e: "ringStart r' j \<le> ringStart r' i \<and> ringEnd r' j < ringStart r' i" if "j < i" for j
    proof -
      from that i have j: "j < nScans r'" by simp
      from that have "sizeBefore scans (Suc j) \<le> sizeBefore scans i"
        by (intro sizeBefore_mono) simp
      moreover have "sizeBefore scans j \<le> sizeBefore scans i"
        using that by (intro sizeBefore_mono) simp
      ultimately show ?thesis
        using idx(1,2) [OF j] idx(1) [OF i] by simp
    qed
    have f: "take (length (scans ! i)) (drop (nat (ringStart r' i)) (laserCloud r')) = scans ! i"
      using ring_slice [of i scans] i len idx(1) [OF i] res(5) by simp
    from a b c d e f show ?thesis by blast
  qed
  with len res(5) show ?thesis by blast
qed



theorem ring_ranges_contiguous_witness:
  "process exampleCollab exampleReg exampleSweep 0 = Inr exampleResult
   \<and> sweepReady (reset exampleCollab 0 exampleReg)
   \<and> laserCloud exampleResult = concat [[], [examplePoint, examplePoint]]
   \<and> ringStart exampleResult 0 = 0 \<and> ringEnd exampleResult 0 = - 1
   \<and> ringStart exampleResult 1 = 0 \<and> ringEnd exampleResult 1 = 1
   \<and> ringEnd exampleResult 0 = ringStart exampleResult (Suc 0) - 1
   \<and> (ringEnd exampleResult 0 < ringStart exampleResult 0)
   \<and> [[], [examplePoint, examplePoint]] ! 0 = []
   \<and> take (length ([[], [examplePoint, examplePoint]] ! 1))
         (drop (nat (ringStart exampleResult 1)) (laserCloud exampleResult))
       = [[], [examplePoint, examplePoint]] ! 1"
proof -
  have n: "0 < nScans exampleResult" "Suc 0 < nScans exampleResult" "1 < nScans exampleResult"
    by (simp_all add: exampleResult_def exampleReg_def)
  note inst = ring_ranges_contiguous [OF process_example example_ready, unfolded example_ringBuffers]
  from inst n(1,2) have "ringEnd exampleResult 0 = ringStart exampleResult (Suc 0) - 1"
    by blast
  moreover from inst n(3) have "take (length ([[], [examplePoint, examplePoint]] ! 1))
         (drop (nat (ringStart exampleResult 1)) (laserCloud exampleResult))
       = [[], [examplePoint, examplePoint]] ! 1"
    by blast
  moreover from inst have "laserCloud exampleResult = concat [[], [examplePoint, examplePoint]]"
    by blast
  ultimately show ?thesis
    using process_example example_ready example_ranges by simp
qed

lemma sum_list_populated:
  fixes f :: "nat \<Rightarrow> int"
  assumes "\<And>i. i \<in> set xs \<Longrightarrow> \<not> P i \<Longrightarrow> f i = 0"
  shows "sum_list (map f (filter P xs)) = sum_list (map f xs)"
  using assms by (induction xs) auto

text \<open>
  C4 (amended). The index ranges of the populated rings hold as many points as the sweep
  has points that pass the validity filter and whose ring index lies in \<open>[0, N - 1]\<close>.
\<close>

theorem ring_sizes_sum:
  assumes "process c r0 laserCloudIn scanTime = Inr r'"
    and "sweepReady (reset c scanTime r0)"
  shows "ringPointCount r' = int (length (filter (kept (nScans r')) laserCloudIn))"
proof -
  define scans where "scans = ringBuffers c (reset c scanTime r0) laserCloudIn scanTime"
  note res = process_result [OF assms(1,2), folded scans_def]
  note idx = process_ring_indices [OF assms(1,2), folded scans_def]
  have len: "length scans = nScans r'" using res(1,2) by simp
  have size: "ringEnd r' i - ringStart r' i + 1 = int (length (scans ! i))" if "i < nScans r'" for i
    using idx(1,2,3) [OF that] by simp
  have "ringPointCount r'
      = sum_list (map (\<lambda>i. ringEnd r' i - ringStart r' i + 1) [0..<nScans r'])"
    unfolding ringPointCount_def
  proof (rule sum_list_populated)
    fix i assume "i \<in> set [0..<nScans r']" and empty: "\<not> ringStart r' i \<le> ringEnd r' i"
    then have "ringEnd r' i - ringStart r' i + 1 = int (length (scans ! i))"
      using size [of i] by simp
    with empty show "ringEnd r' i - ringStart r' i + 1 = 0"
      by linarith
  qed
  also have "\<dots> = sum_list (map (\<lambda>i. int (length (scans ! i))) [0..<nScans r'])"
    by (rule arg_cong [where f = sum_list]) (simp add: size)
  also have "\<dots> = sum_list (map int (map length scans))"
  proof (rule arg_cong [where f = sum_list])
    show "map (\<lambda>i. int (length (scans ! i))) [0..<nScans r'] = map int (map length scans)"
      by (rule nth_equalityI) (simp_all add: len)
  qed
  also have "\<dots> = int (sum_list (map length scans))"
    by (rule sum_list_of_nat)
  finally show ?thesis using res(2,3) by simp
qed


theorem ring_sizes_sum_witness:
  "process exampleCollab exampleReg exampleSweep 0 = Inr exampleResult
   \<and> sweepReady (reset exampleCollab 0 exampleReg)
   \<and> ringPointCount exampleResult = int (length (filter (kept (nScans exampleResult)) exampleSweep))"
  using ring_sizes_sum [OF process_example example_ready] process_example example_ready
  by simp

text \<open>
  C4 as the specification states it counts every point that passes the validity filter. The second point
  of the example sweep passes it and is dropped by the ring test.
\<close>

theorem ring_sizes_sum_counterexample:
  "process exampleCollab exampleReg exampleSweep 0 = Inr exampleResult
   \<and> sweepReady (reset exampleCollab 0 exampleReg)
   \<and> ringPointCount exampleResult = 2
   \<and> length (filter validPoint exampleSweep) = 3"
proof -
  have "ringPointCount exampleResult = 2"
    by (simp add: ringPointCount_def ringStart_def ringEnd_def exampleResult_def exampleReg_def
        asSigned_def upt_rec)
  moreover have "length (filter validPoint exampleSweep) = 3"
    by (simp add: exampleSweep_def validPoint_def remappedFinite_def nearZero_def rawPoint_def)
  ultimately show ?thesis
    using process_example example_ready by simp
qed


section \<open>Motion compensation and termination without error\<close>

lemma advanceImu_bound:
  "idx < length hist \<Longrightarrow> advanceImu hist scanTime relTime idx < length hist"
proof (induction hist scanTime relTime idx rule: advanceImu.induct)
  case (1 hist scanTime relTime idx)
  note unfold = advanceImu.simps [of hist scanTime relTime idx]
  show ?case
  proof (cases "idx < length hist - 1
         \<and> fgt (fadd (Fin (scanTime - stamp (hist ! idx))) relTime) (Fin 0)")
    case True
    then have "Suc idx < length hist" by linarith
    from "1.IH" [OF True this] show ?thesis
      unfolding unfold if_P [OF True] .
  next
    case False
    from "1.prems" show ?thesis
      unfolding unfold if_not_P [OF False] .
  qed
qed

lemma advanceImu_ge: "idx \<le> advanceImu hist scanTime relTime idx"
proof (induction hist scanTime relTime idx rule: advanceImu.induct)
  case (1 hist scanTime relTime idx)
  note unfold = advanceImu.simps [of hist scanTime relTime idx]
  show ?case
  proof (cases "idx < length hist - 1
         \<and> fgt (fadd (Fin (scanTime - stamp (hist ! idx))) relTime) (Fin 0)")
    case True
    from "1.IH" [OF True] show ?thesis
      unfolding unfold if_P [OF True] by simp
  next
    case False
    show ?thesis
      unfolding unfold if_not_P [OF False] by simp
  qed
qed

lemma compensate_empty: "compensate c [] scanTime relTime idx cur point = Inr (idx, cur, point)"
  by (simp add: compensate_def)

lemma transformToStartIMU_intensity:
  "intensity (transformToStartIMU c cur point relTime) = intensity point"
  by (simp add: transformToStartIMU_def split: prod.splits)

lemma compensate_intensity:
  assumes "compensate c hist scanTime relTime idx cur point = Inr (idx', cur', point')"
  shows "intensity point' = intensity point"
  using assms
  by (auto simp: compensate_def Let_def transformToStartIMU_intensity
      split: if_splits)

lemma compensate_total:
  assumes "hist = [] \<or> idx < length hist"
  shows "\<exists>idx' cur' point'. compensate c hist scanTime relTime idx cur point = Inr (idx', cur', point')
           \<and> (hist = [] \<or> idx' < length hist)"
proof (cases "hist = []")
  case True
  then show ?thesis by (simp add: compensate_empty)
next
  case False
  with assms have "advanceImu hist scanTime relTime idx < length hist"
    by (simp add: advanceImu_bound)
  with False show ?thesis
    by (simp add: compensate_def Let_def)
qed

lemma processPoint_total:
  assumes "imuHistory r = [] \<or> imuIdx st < length (imuHistory r)"
    and "length (laserCloudScans st) = nScans r"
  shows "\<exists>st'. processPoint c r scanTime startOri endOri st p = Inr st'
           \<and> (imuHistory r = [] \<or> imuIdx st' < length (imuHistory r))
           \<and> length (laserCloudScans st') = nScans r"
proof (cases "kept (nScans r) p")
  case False
  with assms show ?thesis by (simp add: processPoint_skip)
next
  case True
  then obtain scanID where sid: "pointScanID (nScans r) p = Some scanID"
    and rng: "0 \<le> scanID" "scanID \<le> int (nScans r) - 1"
    by (rule kept_scanID)
  from rng assms(2) have inb: "nat scanID < length (laserCloudScans st)" by simp
  obtain ori half where u: "unwrapOri startOri endOri (halfPassed st) (fneg (fatan2 (in_y p) (in_x p)))
      = (ori, half)" by (cases "unwrapOri startOri endOri (halfPassed st) (fneg (fatan2 (in_y p) (in_x p)))")
  let ?relTime = "relTimeOf (scanPeriod r) startOri endOri ori"
  let ?point = "\<lparr>pt_x = in_y p, pt_y = in_z p, pt_z = in_x p,
                 intensity = fadd (Fin (of_int scanID)) ?relTime\<rparr>"
  from compensate_total [OF assms(1), of c scanTime ?relTime "curState st" ?point]
  obtain idx' cur' point' where
    cmp: "compensate c (imuHistory r) scanTime ?relTime (imuIdx st) (curState st) ?point
        = Inr (idx', cur', point')"
    and idx': "imuHistory r = [] \<or> idx' < length (imuHistory r)"
    by blast
  show ?thesis
    unfolding processPoint_kept [OF True sid] u prod.case Let_def cmp sum.case
    using inb idx' assms(2) by simp
qed

lemma extractPoints_total:
  assumes "imuHistory r = [] \<or> imuIdx st < length (imuHistory r)"
    and "length (laserCloudScans st) = nScans r"
  shows "\<exists>st'. extractPoints c r scanTime startOri endOri st ps = Inr st'"
  using assms
proof (induction ps arbitrary: st)
  case Nil
  show ?case by simp
next
  case (Cons p ps)
  from processPoint_total [OF Cons.prems, of c scanTime startOri endOri p]
  obtain st1 where "processPoint c r scanTime startOri endOri st p = Inr st1"
    "imuHistory r = [] \<or> imuIdx st1 < length (imuHistory r)"
    "length (laserCloudScans st1) = nScans r" by blast
  with Cons.IH [of st1] show ?case by simp
qed

lemma process_total:
  assumes "sweepReady (reset c scanTime r0)"
    and "imuHistory (reset c scanTime r0) = []
         \<or> imuStartIdx (reset c scanTime r0) < length (imuHistory (reset c scanTime r0))"
    and "laserCloudIn \<noteq> []" and "length laserCloudIn < 2 ^ 31"
  shows "\<exists>r'. process c r0 laserCloudIn scanTime = Inr r'"
proof -
  let ?r = "reset c scanTime r0"
  let ?st0 = "\<lparr>imuIdx = imuStartIdx ?r, halfPassed = False, curState = imuCur ?r,
               laserCloudScans = replicate (nScans ?r) []\<rparr>"
  obtain s e where ori: "sweepOrientation (hd laserCloudIn) (last laserCloudIn) = (s, e)"
    by (cases "sweepOrientation (hd laserCloudIn) (last laserCloudIn)")
  from assms(4) have short: "\<not> (2::nat) ^ 31 \<le> length laserCloudIn" by simp
  have "\<exists>st. extractPoints c ?r scanTime s e ?st0 laserCloudIn = Inr st"
    using assms(2) by (intro extractPoints_total) simp_all
  then obtain st where loop: "extractPoints c ?r scanTime s e ?st0 laserCloudIn = Inr st" ..
  have cl: "classifySweep c ?r laserCloudIn scanTime = Inr st"
    unfolding classifySweep_def sweepEndpoints_nonempty [OF assms(3)] sum.case prod.case ori
      if_not_P [OF short]
    by (rule loop)
  from classifySweep_sizes [OF cl] have "length (laserCloudScans st) = nScans ?r" by simp
  with assms(1) have "\<exists>r'. assembleFrom 0 0 (laserCloudScans st) (?r\<lparr>imuCur := curState st\<rparr>) = Inr r'"
    by (intro assembleFrom_total) (simp_all add: sweepReady_def)
  then show ?thesis
    by (simp add: process_def Let_def cl)
qed


lemma set_concat_pushBack:
  assumes "i < length scans"
  shows "set (concat (pushBack scans i q)) = insert q (set (concat scans))"
proof -
  have "set (pushBack scans i q) = insert (scans ! i @ [q]) (set (take i scans) \<union> set (drop (Suc i) scans))"
    using assms by (simp add: pushBack_def upd_conv_take_nth_drop)
  moreover have "set scans = insert (scans ! i) (set (take i scans) \<union> set (drop (Suc i) scans))"
    using assms by (metis id_take_nth_drop list.simps(15) set_append Un_insert_right)
  ultimately show ?thesis by auto
qed

lemma processPoint_packed:
  assumes "kept (nScans r) p" and "pointScanID (nScans r) p = Some scanID"
    and "processPoint c r scanTime startOri endOri st p = Inr st'"
  shows "\<exists>q. nat scanID < length (laserCloudScans st)
           \<and> laserCloudScans st' = pushBack (laserCloudScans st) (nat scanID) q
           \<and> intensity q = fadd (Fin (of_int scanID))
               (relTimeOf (scanPeriod r) startOri endOri
                  (fst (unwrapOri startOri endOri (halfPassed st) (fneg (fatan2 (in_y p) (in_x p))))))
           \<and> (imuHistory r = [] \<longrightarrow> rawCoordinates p q)"
proof -
  obtain ori half where u: "unwrapOri startOri endOri (halfPassed st) (fneg (fatan2 (in_y p) (in_x p)))
      = (ori, half)" by (cases "unwrapOri startOri endOri (halfPassed st) (fneg (fatan2 (in_y p) (in_x p)))")
  let ?relTime = "relTimeOf (scanPeriod r) startOri endOri ori"
  let ?point = "\<lparr>pt_x = in_y p, pt_y = in_z p, pt_z = in_x p,
                 intensity = fadd (Fin (of_int scanID)) ?relTime\<rparr>"
  from assms(3) obtain idx' cur' point' where
    cmp: "compensate c (imuHistory r) scanTime ?relTime (imuIdx st) (curState st) ?point
        = Inr (idx', cur', point')"
    and inb: "nat scanID < length (laserCloudScans st)"
    and push: "laserCloudScans st' = pushBack (laserCloudScans st) (nat scanID) point'"
    unfolding processPoint_kept [OF assms(1,2)] u prod.case Let_def
    by (auto split: sum.splits if_splits)
  from compensate_intensity [OF cmp] have "intensity point' = fadd (Fin (of_int scanID)) ?relTime"
    by simp
  moreover have "rawCoordinates p point'" if "imuHistory r = []"
  proof -
    from cmp that have "point' = ?point" by (simp add: compensate_empty)
    then show ?thesis by (simp add: rawCoordinates_def)
  qed
  ultimately show ?thesis using inb push u by auto
qed

lemma extractPoints_raw:
  assumes "extractPoints c r scanTime startOri endOri st ps = Inr st'"
    and "imuHistory r = []"
    and "\<forall>q \<in> set (concat (laserCloudScans st)). \<exists>p \<in> S. rawCoordinates p q"
    and "set ps \<subseteq> S"
  shows "\<forall>q \<in> set (concat (laserCloudScans st')). \<exists>p \<in> S. rawCoordinates p q"
  using assms
proof (induction ps arbitrary: st)
  case Nil
  then show ?case by simp
next
  case (Cons p ps)
  from Cons.prems(1) obtain st1 where
    step: "processPoint c r scanTime startOri endOri st p = Inr st1"
    and rest: "extractPoints c r scanTime startOri endOri st1 ps = Inr st'"
    by (auto split: sum.splits)
  have "\<forall>q \<in> set (concat (laserCloudScans st1)). \<exists>p \<in> S. rawCoordinates p q"
  proof (cases "kept (nScans r) p")
    case False
    with step have "st1 = st" by (simp add: processPoint_skip)
    with Cons.prems(3) show ?thesis by simp
  next
    case True
    then obtain scanID where sid: "pointScanID (nScans r) p = Some scanID"
      by (rule kept_scanID)
    from processPoint_packed [OF True sid step] Cons.prems(2) obtain q where
      q: "nat scanID < length (laserCloudScans st)"
      "laserCloudScans st1 = pushBack (laserCloudScans st) (nat scanID) q"
      "rawCoordinates p q"
      by blast
    from Cons.prems(4) have "p \<in> S" by simp
    moreover from q(1,2) have "set (concat (laserCloudScans st1))
        = insert q (set (concat (laserCloudScans st)))"
      by (simp only: set_concat_pushBack)
    ultimately show ?thesis
    proof (intro ballI)
      fix q' assume pS: "p \<in> S"
        and eq: "set (concat (laserCloudScans st1)) = insert q (set (concat (laserCloudScans st)))"
        and "q' \<in> set (concat (laserCloudScans st1))"
      then have "q' = q \<or> q' \<in> set (concat (laserCloudScans st))"
        by (simp only: insert_iff)
      then show "\<exists>p \<in> S. rawCoordinates p q'"
      proof
        assume "q' = q"
        with q(3) pS show ?thesis by (intro bexI [of _ p]) simp_all
      next
        assume "q' \<in> set (concat (laserCloudScans st))"
        with Cons.prems(3) show ?thesis by (rule bspec)
      qed
    qed
  qed
  moreover from Cons.prems(4) have "set ps \<subseteq> S" by simp
  ultimately show ?case
    by (rule Cons.IH [OF rest Cons.prems(2)])
qed

lemma process_raw:
  assumes "process c r0 laserCloudIn scanTime = Inr r'"
    and "sweepReady (reset c scanTime r0)" and "imuHistory (reset c scanTime r0) = []"
  shows "\<forall>q \<in> set (laserCloud r'). \<exists>p \<in> set laserCloudIn. rawCoordinates p q"
proof -
  let ?r = "reset c scanTime r0"
  from assms(1) obtain st where
    cl: "classifySweep c ?r laserCloudIn scanTime = Inr st"
    by (auto simp: process_def Let_def split: sum.splits)
  then obtain s e st0 where
    loop: "extractPoints c ?r scanTime s e st0 laserCloudIn = Inr st"
    and st0: "laserCloudScans st0 = replicate (nScans ?r) []"
    by (auto simp: classifySweep_def split: sum.splits prod.splits if_splits)
  have "\<forall>q \<in> set (concat (laserCloudScans st)). \<exists>p \<in> set laserCloudIn. rawCoordinates p q"
    by (rule extractPoints_raw [OF loop assms(3)]) (simp_all add: st0)
  moreover have "laserCloud r' = concat (laserCloudScans st)"
    using process_result(5) [OF assms(1,2)] cl by (simp add: ringBuffers_def)
  ultimately show ?thesis by simp
qed

lemma example_flat_kept:
  "kept (nScans exampleReg) (rawPoint 1 0 0)" "pointScanID (nScans exampleReg) (rawPoint 1 0 0) = Some 1"
proof -
  have "specVerticalAngle 0 0 1 = 0" by (simp add: specVerticalAngle_def)
  moreover have "roundHalfAway 0 = 0" by (simp add: roundHalfAway_def)
  ultimately show sid: "pointScanID (nScans exampleReg) (rawPoint 1 0 0) = Some 1"
    using pointScanID_valid [of "rawPoint 1 0 0" 0 0 1 "nScans exampleReg"]
    by (simp add: rawPoint_def specRingID_def exampleReg_def)
  have "validPoint (rawPoint 1 0 0)"
    by (simp add: validPoint_def remappedFinite_def nearZero_def rawPoint_def)
  with sid show "kept (nScans exampleReg) (rawPoint 1 0 0)"
    by (simp add: kept_def ringInRange_def exampleReg_def)
qed

lemma example_flat_step:
  "processPoint exampleCollab exampleReg 0 (Fin 0) (Fin (2 * pi)) exampleState (rawPoint 1 0 0)
     = Inr (exampleState\<lparr>laserCloudScans := [[], [examplePoint]]\<rparr>)"
  by (simp add: ex_flat exampleState_def pushBack_def examplePoint_def)


text \<open>
  C8. With an empty orientation history the compensation returns the point, the cursor
  and the current IMU state as they are; a sweep is then processed without error and
  every point of the assembled cloud has the remapped coordinates of an input point.
  With any history, the point that reaches a ring buffer carries the packed scalar
  \<open>scanID + relTime\<close> computed at its classification.
\<close>

theorem empty_history_keeps_raw_points:
  "(imuHistory r = [] \<longrightarrow>
      compensate c (imuHistory r) scanTime relTime idx cur point = Inr (idx, cur, point))
   \<and> (imuHistory (reset c scanTime r0) = [] \<and> sweepReady (reset c scanTime r0)
        \<and> laserCloudIn \<noteq> [] \<and> length laserCloudIn < 2 ^ 31 \<longrightarrow>
        (\<exists>r'. process c r0 laserCloudIn scanTime = Inr r'
           \<and> (\<forall>q \<in> set (laserCloud r'). \<exists>p \<in> set laserCloudIn.
                 pt_x q = in_y p \<and> pt_y q = in_z p \<and> pt_z q = in_x p)))
   \<and> (kept (nScans r) p \<and> pointScanID (nScans r) p = Some scanID
        \<and> processPoint c r scanTime startOri endOri st p = Inr st' \<longrightarrow>
        (\<exists>q. laserCloudScans st' = pushBack (laserCloudScans st) (nat scanID) q
           \<and> intensity q = fadd (Fin (of_int scanID))
               (relTimeOf (scanPeriod r) startOri endOri
                  (fst (unwrapOri startOri endOri (halfPassed st)
                         (fneg (fatan2 (in_y p) (in_x p))))))))"
proof -
  have a: "compensate c (imuHistory r) scanTime relTime idx cur point = Inr (idx, cur, point)"
    if "imuHistory r = []"
    using that by (simp add: compensate_empty)
  have b: "\<exists>r'. process c r0 laserCloudIn scanTime = Inr r'
           \<and> (\<forall>q \<in> set (laserCloud r'). \<exists>p \<in> set laserCloudIn.
                 pt_x q = in_y p \<and> pt_y q = in_z p \<and> pt_z q = in_x p)"
    if h: "imuHistory (reset c scanTime r0) = []" "sweepReady (reset c scanTime r0)"
      "laserCloudIn \<noteq> []" "length laserCloudIn < 2 ^ 31"
  proof -
    from process_total [OF h(2) _ h(3,4)] h(1) obtain r' where
      r': "process c r0 laserCloudIn scanTime = Inr r'" by blast
    from process_raw [OF r' h(2,1)] r' show ?thesis
      unfolding rawCoordinates_def by blast
  qed
  from a b processPoint_packed [of r p scanID c scanTime startOri endOri st st']
  show ?thesis by blast
qed


theorem empty_history_keeps_raw_points_witness:
  "imuHistory exampleReg = []
   \<and> compensate exampleCollab (imuHistory exampleReg) 0 (Fin 0) 0 \<lparr>stamp = 0, pose = 0\<rparr> examplePoint
       = Inr (0, \<lparr>stamp = 0, pose = 0\<rparr>, examplePoint)
   \<and> imuHistory (reset exampleCollab 0 exampleReg) = []
   \<and> sweepReady (reset exampleCollab 0 exampleReg)
   \<and> exampleSweep \<noteq> [] \<and> length exampleSweep < 2 ^ 31
   \<and> (\<exists>r'. process exampleCollab exampleReg exampleSweep 0 = Inr r'
         \<and> (\<forall>q \<in> set (laserCloud r'). \<exists>p \<in> set exampleSweep.
               pt_x q = in_y p \<and> pt_y q = in_z p \<and> pt_z q = in_x p))
   \<and> kept (nScans exampleReg) (rawPoint 1 0 0)
   \<and> pointScanID (nScans exampleReg) (rawPoint 1 0 0) = Some 1
   \<and> processPoint exampleCollab exampleReg 0 (Fin 0) (Fin (2 * pi)) exampleState (rawPoint 1 0 0)
       = Inr (exampleState\<lparr>laserCloudScans := [[], [examplePoint]]\<rparr>)
   \<and> (\<exists>q. laserCloudScans (exampleState\<lparr>laserCloudScans := [[], [examplePoint]]\<rparr>)
             = pushBack (laserCloudScans exampleState) (nat 1) q
         \<and> intensity q = fadd (Fin (of_int 1))
             (relTimeOf (scanPeriod exampleReg) (Fin 0) (Fin (2 * pi))
                (fst (unwrapOri (Fin 0) (Fin (2 * pi)) (halfPassed exampleState)
                       (fneg (fatan2 (in_y (rawPoint 1 0 0)) (in_x (rawPoint 1 0 0))))))))"
proof -
  have h1: "imuHistory exampleReg = []" by (simp add: exampleReg_def)
  have h2: "imuHistory (reset exampleCollab 0 exampleReg) = []"
    by (simp add: exampleReg_def exampleCollab_def)
  have h3: "exampleSweep \<noteq> []" "length exampleSweep < 2 ^ 31"
    by (simp_all add: exampleSweep_def)
  note inst = empty_history_keeps_raw_points [where r = exampleReg and c = exampleCollab
      and scanTime = 0 and relTime = "Fin 0" and idx = 0 and cur = "\<lparr>stamp = 0, pose = 0\<rparr>"
      and point = examplePoint and ?r0.0 = exampleReg and laserCloudIn = exampleSweep
      and p = "rawPoint 1 0 0" and scanID = 1 and startOri = "Fin 0" and endOri = "Fin (2 * pi)"
      and st = exampleState and st' = "exampleState\<lparr>laserCloudScans := [[], [examplePoint]]\<rparr>"]
  from inst h1 h2 h3 example_ready example_flat_kept example_flat_step
  show ?thesis by blast
qed


section \<open>The start-up delay\<close>

lemma processCloudMessages_delay:
  assumes "systemDelay r = int k" and "length msgs \<le> k"
  shows "processCloudMessages c r msgs = Inr (r\<lparr>systemDelay := int k - int (length msgs)\<rparr>)"
  using assms
proof (induction msgs arbitrary: r k)
  case Nil
  then show ?case by simp
next
  case (Cons m msgs)
  then obtain k' where k: "k = Suc k'" by (cases k) auto
  with Cons.prems have step: "processCloudMessage c r m = Inr (r\<lparr>systemDelay := int k'\<rparr>)"
    by (simp add: processCloudMessage_def)
  have "processCloudMessages c (r\<lparr>systemDelay := int k'\<rparr>) msgs
      = Inr (r\<lparr>systemDelay := int k'\<rparr>\<lparr>systemDelay := int k' - int (length msgs)\<rparr>)"
    using Cons.prems k by (intro Cons.IH) simp_all
  with step k show ?case by simp
qed

lemma processCloudMessages_append:
  "processCloudMessages c r (xs @ ys) =
     (case processCloudMessages c r xs of
        Inl e \<Rightarrow> Inl e
      | Inr r' \<Rightarrow> processCloudMessages c r' ys)"
  by (induction xs arbitrary: r) (simp_all split: sum.splits)


text \<open>
  C10. After construction the delay counter is 20. Each of the first 20 messages only
  decrements it, whatever the message holds: nothing else of the object changes and no
  sweep is processed. The 21st message is processed.
\<close>

theorem first_messages_discarded:
  "(length msgs \<le> 20 \<longrightarrow>
      processCloudMessages c (VelodyneScanRegistration base) msgs
        = Inr (base\<lparr>systemDelay := 20 - int (length msgs)\<rparr>))
   \<and> (length msgs = 20 \<longrightarrow>
        processCloudMessages c (VelodyneScanRegistration base) (msgs @ [m])
          = process c (base\<lparr>systemDelay := 0\<rparr>) (msgPoints m) (msgStamp m))
   \<and> (0 < systemDelay r \<longrightarrow> processCloudMessage c r m = Inr (r\<lparr>systemDelay := systemDelay r - 1\<rparr>))
   \<and> systemDelay (VelodyneScanRegistration base) = 20"
proof -
  have d: "systemDelay (VelodyneScanRegistration base) = int 20"
    by (simp add: VelodyneScanRegistration_def)
  have a: "processCloudMessages c (VelodyneScanRegistration base) msgs
        = Inr (base\<lparr>systemDelay := 20 - int (length msgs)\<rparr>)" if "length msgs \<le> 20"
    using processCloudMessages_delay [OF d that, of c]
    by (simp add: VelodyneScanRegistration_def)
  have b: "processCloudMessages c (VelodyneScanRegistration base) (msgs @ [m])
          = process c (base\<lparr>systemDelay := 0\<rparr>) (msgPoints m) (msgStamp m)"
    if "length msgs = 20"
    using a that
    by (simp add: processCloudMessages_append processCloudMessage_def split: sum.splits)
  from a b d show ?thesis by (simp add: processCloudMessage_def)
qed

theorem first_messages_discarded_witness:
  "length (replicate 20 exampleMessage) = 20
   \<and> processCloudMessages exampleCollab (VelodyneScanRegistration exampleReg)
        (replicate 20 exampleMessage) = Inr exampleReg
   \<and> processCloudMessages exampleCollab (VelodyneScanRegistration exampleReg)
        (replicate 20 exampleMessage @ [exampleMessage]) = Inr exampleResult"
proof -
  have z: "exampleReg\<lparr>systemDelay := 0\<rparr> = exampleReg" by (simp add: exampleReg_def)
  from first_messages_discarded [where msgs = "replicate 20 exampleMessage" and base = exampleReg
      and c = exampleCollab and m = exampleMessage]
  show ?thesis by (simp add: z exampleMessage_def process_example)
qed



section \<open>The cursor into the orientation history\<close>

lemma returning_step1:
  "processPoint exampleCollab exampleRegImu 0 (Fin 0) (Fin (13176795 / 2097152))
      \<lparr>imuIdx = 0, halfPassed = False, curState = \<lparr>stamp = 0, pose = 0\<rparr>, laserCloudScans = [[], []]\<rparr>
      (rawPoint 1 0 0)
   = Inr \<lparr>imuIdx = 0, halfPassed = False, curState = \<lparr>stamp = 0, pose = 0\<rparr>,
          laserCloudScans = [[], [\<lparr>pt_x = Fin 0, pt_y = Fin 0, pt_z = Fin 1, intensity = Fin 1\<rparr>]]\<rparr>"
  by (simp add: processPoint_def exampleRegImu_def exampleReg_def exampleHistory_def exampleCollab_def
      rawPoint_def verticalAngle_def roundedAngleOf_def cTruncate_def scanIDOf_def
      relTimeOf_def compensate_def transformToStartIMU_def pushBack_def fsub_def fgt_def
      fatan2_ahead unwrapOri_ahead Let_def advanceImu.simps del: fatan2.simps)

lemma returning_step2:
  "processPoint exampleCollab exampleRegImu 0 (Fin 0) (Fin (13176795 / 2097152))
      \<lparr>imuIdx = 0, halfPassed = False, curState = cur,
       laserCloudScans = [[], [q1]]\<rparr>
      (rawPoint 0 (- 1) 0)
   = Inr \<lparr>imuIdx = 2, halfPassed = False, curState = \<lparr>stamp = 2 / 100, pose = 5\<rparr>,
          laserCloudScans = [[], [q1,
             \<lparr>pt_x = Fin 4, pt_y = Fin 0, pt_z = Fin 0, intensity = Fin (1 + 1 / 40)\<rparr>]]\<rparr>"
  by (simp add: processPoint_def exampleRegImu_def exampleReg_def exampleHistory_def exampleCollab_def
      rawPoint_def verticalAngle_def roundedAngleOf_def cTruncate_def scanIDOf_def
      relTimeOf_def compensate_def transformToStartIMU_def pushBack_def fsub_def fgt_def
      fatan2_right unwrapOri_quarter Let_def advanceImu.simps del: fatan2.simps)

lemma returning_step3:
  "processPoint exampleCollab exampleRegImu 0 (Fin 0) (Fin (13176795 / 2097152))
      \<lparr>imuIdx = 2, halfPassed = False, curState = cur,
       laserCloudScans = [[], [q1, q2]]\<rparr>
      (rawPoint 1 0 0)
   = Inr \<lparr>imuIdx = 2, halfPassed = False, curState = \<lparr>stamp = 0, pose = - 3\<rparr>,
          laserCloudScans = [[], [q1, q2,
             \<lparr>pt_x = Fin (- 3), pt_y = Fin 0, pt_z = Fin 1, intensity = Fin 1\<rparr>]]\<rparr>"
  by (simp add: processPoint_def exampleRegImu_def exampleReg_def exampleHistory_def exampleCollab_def
      rawPoint_def verticalAngle_def roundedAngleOf_def cTruncate_def scanIDOf_def
      relTimeOf_def compensate_def transformToStartIMU_def pushBack_def fsub_def fgt_def
      fatan2_ahead unwrapOri_ahead Let_def advanceImu.simps del: fatan2.simps)


lemma returning_classify:
  "classifySweep exampleCollab exampleRegImu returningSweep 0 = Inr returningState"
proof -
  have ends: "sweepEndpoints returningSweep = Inr (rawPoint 1 0 0, rawPoint 1 0 0)"
    by (simp add: sweepEndpoints_nonempty returningSweep_def)
  have st0: "\<lparr>imuIdx = imuStartIdx exampleRegImu, halfPassed = False, curState = imuCur exampleRegImu,
              laserCloudScans = replicate (nScans exampleRegImu) []\<rparr>
      = \<lparr>imuIdx = 0, halfPassed = False, curState = \<lparr>stamp = 0, pose = 0\<rparr>,
         laserCloudScans = [[], []]\<rparr>"
    by (simp add: exampleRegImu_def exampleReg_def numeral_2_eq_2)
  show ?thesis
    unfolding classifySweep_def ends sum.case prod.case sweepOrientation_example st0
    by (simp add: returningSweep_def returning_step1 returning_step2 returning_step3
        returningState_def)
qed

lemma returning_process:
  "process exampleCollab exampleRegImu returningSweep 0 = Inr returningResult"
proof -
  have r: "reset exampleCollab 0 exampleRegImu = exampleRegImu"
    by (simp add: exampleCollab_def exampleRegImu_def exampleReg_def)
  show ?thesis
    unfolding process_def r Let_def returning_classify sum.case
    by (simp add: exampleRegImu_def exampleReg_def returningResult_def returningState_def
        sizeMinus1_def numeral_2_eq_2 assembleFrom.simps)
qed


text \<open>
  C7 (amended). A point with relative time \<open>0\<close>, processed while the cursor is at the
  first entry of a non-empty history whose first time stamp is the time of the sweep, is
  compensated with that first entry: the cursor stays where it is, \<^verbatim>\<open>_imuCur\<close> is the
  first entry, whatever the interpolation of the collaborator is, and the point is
  transformed with it.
\<close>

theorem first_entry_at_cursor_start:
  assumes "hist \<noteq> []" and "stamp (hist ! 0) = scanTime"
  shows "compensate c hist scanTime (Fin 0) 0 cur point
           = Inr (0, hist ! 0, transformToStartIMU c (hist ! 0) point (Fin 0))"
proof -
  have "\<not> fgt (fadd (Fin (scanTime - stamp (hist ! 0))) (Fin 0)) (Fin 0)"
    using assms(2) by (simp add: fgt_def)
  then have "advanceImu hist scanTime (Fin 0) 0 = 0"
    by (simp add: advanceImu.simps [of hist scanTime "Fin 0" 0])
  with assms(1) show ?thesis
    by (simp add: compensate_def Let_def)
qed

theorem first_entry_at_cursor_start_witness:
  "exampleHistory \<noteq> [] \<and> stamp (exampleHistory ! 0) = 0
   \<and> compensate exampleCollab exampleHistory 0 (Fin 0) 0 \<lparr>stamp = 7, pose = 7\<rparr> examplePoint
       = Inr (0, \<lparr>stamp = 0, pose = 0\<rparr>, examplePoint)"
proof -
  have h: "exampleHistory \<noteq> []" "stamp (exampleHistory ! 0) = 0"
    by (simp_all add: exampleHistory_def)
  have "transformToStartIMU exampleCollab (exampleHistory ! 0) examplePoint (Fin 0) = examplePoint"
    by (simp add: transformToStartIMU_def exampleCollab_def exampleHistory_def examplePoint_def)
  moreover have "exampleHistory ! 0 = \<lparr>stamp = 0, pose = 0\<rparr>"
    by (simp add: exampleHistory_def)
  ultimately show ?thesis
    using first_entry_at_cursor_start [OF h, of exampleCollab "\<lparr>stamp = 7, pose = 7\<rparr>" examplePoint] h
    by simp
qed


text \<open>
  C7 as the specification states it does not depend on the cursor. In the sweep below the second point
  moves the cursor to the last entry of the history and the third point, whose relative
  time is \<open>0\<close> again, is compensated with a state interpolated with ratio 2 between the
  entries 2 and 1, which is not the first entry: its first coordinate is shifted by
  \<open>- 3\<close>, where the first entry leaves the point as it is.
\<close>

theorem first_entry_counterexample:
  "imuHistory exampleRegImu \<noteq> []
   \<and> stamp (imuHistory exampleRegImu ! 0) = 0
   \<and> process exampleCollab exampleRegImu returningSweep 0 = Inr returningResult
   \<and> relTimeOf (scanPeriod exampleRegImu) (Fin 0) (Fin (2 * pi))
        (fst (unwrapOri (Fin 0) (Fin (2 * pi)) False
               (fneg (fatan2 (in_y (returningSweep ! 2)) (in_x (returningSweep ! 2)))))) = Fin 0
   \<and> laserCloud returningResult ! 2
        = \<lparr>pt_x = Fin (- 3), pt_y = Fin 0, pt_z = Fin 1, intensity = Fin 1\<rparr>
   \<and> imuCur returningResult
        = interpolate exampleCollab (imuHistory exampleRegImu ! 2) (imuHistory exampleRegImu ! 1) (Fin 2)
   \<and> imuCur returningResult = \<lparr>stamp = 0, pose = - 3\<rparr>
   \<and> imuHistory exampleRegImu ! 0 = \<lparr>stamp = 0, pose = 0\<rparr>
   \<and> transformToStartIMU exampleCollab (imuHistory exampleRegImu ! 0)
        \<lparr>pt_x = Fin 0, pt_y = Fin 0, pt_z = Fin 1, intensity = Fin 1\<rparr> (Fin 0)
        = \<lparr>pt_x = Fin 0, pt_y = Fin 0, pt_z = Fin 1, intensity = Fin 1\<rparr>"
  by (simp add: returning_process)
     (simp add: exampleRegImu_def exampleReg_def exampleHistory_def returningResult_def
        returningSweep_def rawPoint_def exampleCollab_def transformToStartIMU_def
        relTimeOf_def fsub_def fatan2_ahead unwrapOri_ahead del: fatan2.simps)





section \<open>The order of relative times within a ring\<close>















section \<open>A sweep whose angles pass the discontinuity of the arc tangent\<close>


















section \<open>Sweeps of fewer than two points\<close>

lemma single_process:
  "process exampleCollab exampleReg singleSweep 0 = Inr singleResult"
proof -
  have ends: "sweepEndpoints singleSweep = Inr (rawPoint 1 0 0, rawPoint 1 0 0)"
    by (simp add: sweepEndpoints_nonempty singleSweep_def)
  have st0: "\<lparr>imuIdx = imuStartIdx exampleReg, halfPassed = False, curState = imuCur exampleReg,
              laserCloudScans = replicate (nScans exampleReg) []\<rparr> = exampleState"
    by (simp add: exampleReg_def exampleState_def numeral_2_eq_2)
  have cl: "classifySweep exampleCollab exampleReg singleSweep 0
      = Inr (exampleState\<lparr>laserCloudScans := [[], [examplePoint]]\<rparr>)"
    unfolding classifySweep_def ends sum.case prod.case sweepOrientation_example st0
    by (simp add: singleSweep_def ex_flat exampleState_def pushBack_def examplePoint_def)
  have r: "reset exampleCollab 0 exampleReg = exampleReg"
    by (simp add: exampleCollab_def exampleReg_def)
  show ?thesis
    unfolding process_def r Let_def cl sum.case
    by (simp add: exampleReg_def exampleState_def singleResult_def sizeMinus1_def numeral_2_eq_2
        assembleFrom.simps)
qed

text \<open>
  C9 (amended). On a sweep of at least two points the reads at index \<open>0\<close> and at index
  \<^verbatim>\<open>cloudSize - 1\<close> are inside the input vector and give its first and last point. No
  check rejects a shorter sweep. A sweep of one point is read in the same way, its point
  being the first and the last one, and it is processed to the end like any other sweep.
  Only on an empty sweep do the reads leave the vector, which is undefined behaviour.
\<close>

theorem sweep_reads_in_bounds:
  "(2 \<le> length laserCloudIn \<longrightarrow>
      0 < length laserCloudIn \<and> sizeMinus1 (length laserCloudIn) < length laserCloudIn
      \<and> sweepEndpoints laserCloudIn
          = Inr (laserCloudIn ! 0, laserCloudIn ! (length laserCloudIn - 1)))
   \<and> sweepEndpoints [p] = Inr (p, p)
   \<and> (sweepReady (reset c scanTime r0)
        \<and> (imuHistory (reset c scanTime r0) = []
           \<or> imuStartIdx (reset c scanTime r0) < length (imuHistory (reset c scanTime r0))) \<longrightarrow>
        (\<exists>r'. process c r0 [p] scanTime = Inr r'))
   \<and> sweepEndpoints [] = Inl OutOfBounds
   \<and> process c r0 [] scanTime = Inl OutOfBounds"
proof -
  have "sweepEndpoints ([] :: PointXYZ list) = Inl OutOfBounds"
    by (simp add: sweepEndpoints_def elemAt_def)
  moreover from this have "process c r0 [] scanTime = Inl OutOfBounds"
    by (simp add: process_def classifySweep_def)
  moreover have "sweepEndpoints [p] = Inr (p, p)"
    by (simp add: sweepEndpoints_nonempty)
  moreover have "\<exists>r'. process c r0 [p] scanTime = Inr r'"
    if "sweepReady (reset c scanTime r0)"
      "imuHistory (reset c scanTime r0) = []
         \<or> imuStartIdx (reset c scanTime r0) < length (imuHistory (reset c scanTime r0))"
    using that by (intro process_total) simp_all
  moreover have "sizeMinus1 (length laserCloudIn) < length laserCloudIn
      \<and> sweepEndpoints laserCloudIn
          = Inr (laserCloudIn ! 0, laserCloudIn ! (length laserCloudIn - 1))"
    if "2 \<le> length laserCloudIn"
  proof -
    from that have ne: "laserCloudIn \<noteq> []" by auto
    then show ?thesis
      by (simp add: sweepEndpoints_nonempty hd_conv_nth last_conv_nth sizeMinus1_def)
  qed
  ultimately show ?thesis by auto
qed

theorem sweep_reads_in_bounds_witness:
  "2 \<le> length [rawPoint 1 0 0, rawPoint 0 1 0, rawPoint 1 1 0]
   \<and> sizeMinus1 (length [rawPoint 1 0 0, rawPoint 0 1 0, rawPoint 1 1 0]) = 2
   \<and> sweepEndpoints [rawPoint 1 0 0, rawPoint 0 1 0, rawPoint 1 1 0]
       = Inr (rawPoint 1 0 0, rawPoint 1 1 0)
   \<and> sweepReady (reset exampleCollab 0 exampleReg)
   \<and> imuHistory (reset exampleCollab 0 exampleReg) = []
   \<and> (\<exists>r'. process exampleCollab exampleReg [rawPoint 1 0 0] 0 = Inr r')"
proof -
  have h: "imuHistory (reset exampleCollab 0 exampleReg) = []"
    by (simp add: exampleCollab_def exampleReg_def)
  note inst = sweep_reads_in_bounds
      [where laserCloudIn = "[rawPoint 1 0 0, rawPoint 0 1 0, rawPoint 1 1 0]"
         and p = "rawPoint 1 0 0" and c = exampleCollab and ?r0.0 = exampleReg and scanTime = 0]
  from inst example_ready h have "\<exists>r'. process exampleCollab exampleReg [rawPoint 1 0 0] 0 = Inr r'"
    by blast
  moreover from inst have "sweepEndpoints [rawPoint 1 0 0, rawPoint 0 1 0, rawPoint 1 1 0]
       = Inr (rawPoint 1 0 0, rawPoint 1 1 0)"
    by simp
  ultimately show ?thesis
    using example_ready h by (simp add: sizeMinus1_def)
qed

text \<open>
  C9 as the specification states it has the operation undefined on every sweep of fewer than two points.
  The sweep below has one point: both reads are at index \<open>0\<close>, inside the vector, and the
  sweep is processed into a cloud of one point.
\<close>

theorem short_sweep_counterexample:
  "length singleSweep = 1
   \<and> sizeMinus1 (length singleSweep) = 0
   \<and> elemAt singleSweep 0 = Some (rawPoint 1 0 0)
   \<and> sweepEndpoints singleSweep = Inr (rawPoint 1 0 0, rawPoint 1 0 0)
   \<and> process exampleCollab exampleReg singleSweep 0 = Inr singleResult
   \<and> laserCloud singleResult = [examplePoint]"
  by (simp add: single_process)
     (simp add: singleSweep_def singleResult_def sizeMinus1_def elemAt_def sweepEndpoints_nonempty)

end
